theory Spec2Isabelle
  imports Main "HOL-Library.Sublist" "HOL-Library.AList" "HOL-Library.DAList"
begin

section \<open>Strings, numbers and errors\<close>

text \<open>
  Go strings are byte sequences; \<^typ>\<open>string\<close> is a list of bytes as well, so
  \<open>len\<close>, slicing and comparison carry over literally. Go's \<open>int\<close> is 64 bits
  wide; the ports, counts and status codes below are only compared, never computed
  with, so they are modelled as \<^typ>\<open>int\<close>.
\<close>

definition digit_char :: "nat \<Rightarrow> char" where
  "digit_char d = ''0123456789'' ! d"

fun show_nat :: "nat \<Rightarrow> string" where
  "show_nat n = (if n < 10 then [digit_char n] else show_nat (n div 10) @ [digit_char (n mod 10)])"

declare show_nat.simps [simp del]

text \<open>The \<open>%d\<close> verb of \<open>fmt\<close>.\<close>

definition show_int :: "int \<Rightarrow> string" where
  "show_int i = (if i < 0 then CHR ''-'' # show_nat (nat (- i)) else show_nat (nat i))"

text \<open>
  Every \<open>fmt.Errorf\<close> of the connector package is a constructor; \<open>error_message\<close>
  renders the text the Go error carries. \<open>ErrSendFailed\<close> wraps, with \<open>%w\<close>, the error
  the socket library returned for the write; that cause and its text are the
  library's, so \<open>error_message ErrSendFailed\<close> is the text up to the place where the
  cause follows. \<open>ErrPanic\<close> stands for a run-time panic (a nil dereference, a negative
  length given to \<open>make\<close>), which is no Go error value.
\<close>

datatype error =
    ErrPortRange
  | ErrPortRestricted int
  | ErrPortNotAllowed int
  | ErrMaxTunnels int
  | ErrTunnelExists string
  | ErrTunnelNotFound string
  | ErrCreateFailed error
  | ErrGetExisting error
  | ErrNoActiveTunnel string
  | ErrSendFailed
  | ErrRequestTimeout
  | ErrPanic

fun error_message :: "error \<Rightarrow> string" where
  "error_message ErrPortRange = ''port must be between 1 and 65535''"
| "error_message (ErrPortRestricted p) = ''port '' @ show_int p @ '' is restricted''"
| "error_message (ErrPortNotAllowed p) = ''port '' @ show_int p @ '' is not allowed''"
| "error_message (ErrMaxTunnels n) =
     ''maximum number of tunnels ('' @ show_int n @ '') exceeded for user''"
| "error_message (ErrTunnelExists i) = ''tunnel with ID '' @ i @ '' already exists''"
| "error_message (ErrTunnelNotFound i) = ''tunnel with ID '' @ i @ '' not found''"
| "error_message (ErrCreateFailed e) = ''failed to create tunnel: '' @ error_message e"
| "error_message (ErrGetExisting e) = ''failed to get existing tunnels: '' @ error_message e"
| "error_message (ErrNoActiveTunnel s) = ''no active tunnel for subdomain: '' @ s"
| "error_message ErrSendFailed = ''failed to send request through tunnel: ''"
| "error_message ErrRequestTimeout = ''tunnel request timeout''"
| "error_message ErrPanic = ''panic''"

section \<open>The tester's substring check\<close>

text \<open>
  \<open>findSubstring\<close> is the loop \<open>for i := 0; i <= len(text)-len(substring); i++\<close>
  over Go's signed lengths: when the substring is the longer one the bound is negative
  and the body never runs. The slice \<open>text[i:i+len(substring)]\<close> is in range whenever
  the loop condition holds.
\<close>

function findSubstring_from :: "string \<Rightarrow> string \<Rightarrow> int \<Rightarrow> bool" where
  "findSubstring_from text substring i =
     (if i \<le> int (length text) - int (length substring)
      then (if take (length substring) (drop (nat i) text) = substring then True
            else findSubstring_from text substring (i + 1))
      else False)"
  by pat_completeness auto
termination
  by (relation "measure (\<lambda>(t, s, i). nat (int (length t) - int (length s) - i + 1))") auto

declare findSubstring_from.simps [simp del]

definition findSubstring :: "string \<Rightarrow> string \<Rightarrow> bool" where
  "findSubstring text substring = findSubstring_from text substring 0"

definition contains :: "string \<Rightarrow> string \<Rightarrow> bool" where
  "contains text substring =
     (length text > 0 \<and> length substring > 0 \<and>
      (text = substring \<or> (length text > length substring \<and> findSubstring text substring)))"

section \<open>Port validation\<close>

definition restrictedPorts :: "int list" where
  "restrictedPorts = [22, 23, 25, 53, 80, 110, 143, 443, 993, 995]"

text \<open>The \<open>range\<close> loop of \<open>ValidatePort\<close> over the restricted ports.\<close>

fun check_restricted :: "int list \<Rightarrow> int \<Rightarrow> error option" where
  "check_restricted [] port = None"
| "check_restricted (restricted # rest) port =
     (if port = restricted then Some (ErrPortRestricted port) else check_restricted rest port)"

text \<open>\<open>ValidatePort\<close> returns \<open>None\<close> for Go's \<open>nil\<close> error.\<close>

definition ValidatePort :: "int \<Rightarrow> error option" where
  "ValidatePort port =
     (if port < 1 \<or> port > 65535 then Some ErrPortRange
      else check_restricted restrictedPorts port)"

section \<open>The tunnel store\<close>

text \<open>
  Times are nanoseconds since the epoch and durations are nanoseconds, as in Go's
  \<open>time\<close> package; every \<open>time.Now()\<close> is a parameter of the function that reads it.
\<close>

type_synonym time = int

definition second :: int where "second = 1000000000"
definition minute :: int where "minute = 60 * second"
definition hour :: int where "hour = 60 * minute"

datatype TunnelStatus =
    TunnelStatusActive
  | TunnelStatusInactive
  | TunnelStatusConnecting
  | TunnelStatusError
  | TunnelStatusTerminated

record Analytics =
  RequestCount :: int
  ResponseTimes :: "int list"
  StatusCodes :: "(int \<times> int) list"
  Endpoints :: "(string \<times> int) list"
  LastRequest :: time
  BytesTransferred :: int

record Tunnel =
  ID :: string
  UserID :: string
  LocalPort :: int
  PublicURL :: string
  Status :: TunnelStatus
  CreatedAt :: time
  LastActivity :: time
  ExpiresAt :: time
  Analytics :: "Analytics option"

definition new_Analytics :: Analytics where
  "new_Analytics = \<lparr>RequestCount = 0, ResponseTimes = [], StatusCodes = [], Endpoints = [],
     LastRequest = 0, BytesTransferred = 0\<rparr>"

text \<open>
  \<open>MemoryStore.tunnels\<close> is a Go map from tunnel id to tunnel. It is iterated by
  \<open>GetTunnelsByUserID\<close>, so it is an association list with distinct keys; the order of
  the list stands for the order in which Go's \<open>range\<close> happens to visit the entries.
  All writes to a stored tunnel that matter here go through the store's own methods, so
  the tunnels are held by value.
\<close>

record MemoryStore =
  tunnels :: "(string, Tunnel) alist"

definition NewMemoryStore :: MemoryStore where
  "NewMemoryStore = \<lparr>tunnels = DAList.empty\<rparr>"

text \<open>The methods return the store with Go's \<open>error\<close> (\<open>None\<close> for \<open>nil\<close>).\<close>

definition Store_CreateTunnel :: "MemoryStore \<Rightarrow> Tunnel \<Rightarrow> MemoryStore \<times> error option" where
  "Store_CreateTunnel ms tunnel =
     (case DAList.lookup (tunnels ms) (ID tunnel) of
        Some _ \<Rightarrow> (ms, Some (ErrTunnelExists (ID tunnel)))
      | None \<Rightarrow> (ms\<lparr>tunnels := DAList.update (ID tunnel) tunnel (tunnels ms)\<rparr>, None))"

definition GetTunnel :: "MemoryStore \<Rightarrow> string \<Rightarrow> error + Tunnel" where
  "GetTunnel ms tunnelID =
     (case DAList.lookup (tunnels ms) tunnelID of
        None \<Rightarrow> Inl (ErrTunnelNotFound tunnelID)
      | Some tunnel \<Rightarrow> Inr tunnel)"

text \<open>
  The loop of \<open>GetTunnelsByUserID\<close>: \<open>userTunnels\<close> starts as the nil slice and every
  tunnel of the user whose status is active is appended.
\<close>

fun GetTunnelsByUserID_loop :: "Tunnel list \<Rightarrow> string \<Rightarrow> Tunnel list \<Rightarrow> Tunnel list" where
  "GetTunnelsByUserID_loop [] userID userTunnels = userTunnels"
| "GetTunnelsByUserID_loop (tunnel # rest) userID userTunnels =
     (if UserID tunnel = userID \<and> Status tunnel = TunnelStatusActive
      then GetTunnelsByUserID_loop rest userID (userTunnels @ [tunnel])
      else GetTunnelsByUserID_loop rest userID userTunnels)"

definition GetTunnelsByUserID :: "MemoryStore \<Rightarrow> string \<Rightarrow> error + Tunnel list" where
  "GetTunnelsByUserID ms userID =
     Inr (GetTunnelsByUserID_loop (map snd (DAList.impl_of (tunnels ms))) userID [])"

definition UpdateTunnelStatus ::
  "MemoryStore \<Rightarrow> string \<Rightarrow> TunnelStatus \<Rightarrow> time \<Rightarrow> MemoryStore \<times> error option" where
  "UpdateTunnelStatus ms tunnelID status now =
     (case DAList.lookup (tunnels ms) tunnelID of
        None \<Rightarrow> (ms, Some (ErrTunnelNotFound tunnelID))
      | Some tunnel \<Rightarrow>
          (ms\<lparr>tunnels := DAList.update tunnelID
                 (tunnel\<lparr>Status := status, LastActivity := now\<rparr>) (tunnels ms)\<rparr>, None))"

section \<open>The tunnel service\<close>

record TunnelConfig =
  MaxTunnelsPerUser :: int
  TunnelExpiration :: int
  AllowedPorts :: "int list"
  BaseURL :: string

definition GenerateTunnelConfig :: "string \<Rightarrow> TunnelConfig" where
  "GenerateTunnelConfig baseURL =
     \<lparr>MaxTunnelsPerUser = 5, TunnelExpiration = 24 * hour,
      AllowedPorts = [3000, 3001, 4000, 5000, 8000, 8080, 8081, 9000], BaseURL = baseURL\<rparr>"

fun isPortAllowed_loop :: "int list \<Rightarrow> int \<Rightarrow> bool" where
  "isPortAllowed_loop [] port = False"
| "isPortAllowed_loop (allowedPort # rest) port =
     (if port = allowedPort then True else isPortAllowed_loop rest port)"

definition isPortAllowed :: "TunnelConfig \<Rightarrow> int \<Rightarrow> bool" where
  "isPortAllowed config port =
     (if length (AllowedPorts config) = 0 then True
      else isPortAllowed_loop (AllowedPorts config) port)"

definition generatePublicURL :: "TunnelConfig \<Rightarrow> string \<Rightarrow> string \<Rightarrow> string" where
  "generatePublicURL config subdomain tunnelID =
     BaseURL config @ ''/'' @ subdomain @ ''/'' @ tunnelID"

text \<open>
  \<open>ServiceImpl.CreateTunnel\<close>. The fresh UUID (\<open>tunnelID\<close>), the random hex string of
  \<open>generatePublicURL\<close> (\<open>subdomain\<close>) and the clock are parameters. The goroutine it
  starts, \<open>establishTunnel\<close>, is a step of its own below: it runs two seconds later.
\<close>

definition Service_CreateTunnel ::
  "TunnelConfig \<Rightarrow> MemoryStore \<Rightarrow> string \<Rightarrow> int \<Rightarrow> string \<Rightarrow> string \<Rightarrow> time
     \<Rightarrow> MemoryStore \<times> (error + Tunnel)" where
  "Service_CreateTunnel config ms userID localPort tunnelID subdomain now =
     (if \<not> isPortAllowed config localPort then (ms, Inl (ErrPortNotAllowed localPort))
      else
        (case GetTunnelsByUserID ms userID of
           Inl err \<Rightarrow> (ms, Inl (ErrGetExisting err))
         | Inr existingTunnels \<Rightarrow>
             if int (length existingTunnels) \<ge> MaxTunnelsPerUser config
             then (ms, Inl (ErrMaxTunnels (MaxTunnelsPerUser config)))
             else
               (let tunnel = \<lparr>ID = tunnelID, UserID = userID, LocalPort = localPort,
                      PublicURL = generatePublicURL config subdomain tunnelID,
                      Status = TunnelStatusConnecting, CreatedAt = now, LastActivity = now,
                      ExpiresAt = now + TunnelExpiration config,
                      Analytics = Some new_Analytics\<rparr>
                in (case Store_CreateTunnel ms tunnel of
                      (ms', Some err) \<Rightarrow> (ms', Inl (ErrCreateFailed err))
                    | (ms', None) \<Rightarrow> (ms', Inr tunnel)))))"

definition establishTunnel :: "MemoryStore \<Rightarrow> string \<Rightarrow> time \<Rightarrow> MemoryStore" where
  "establishTunnel ms tunnelID now =
     (case UpdateTunnelStatus ms tunnelID TunnelStatusActive now of
        (ms', None) \<Rightarrow> ms'
      | (ms', Some err) \<Rightarrow> fst (UpdateTunnelStatus ms' tunnelID TunnelStatusError now))"

definition GetUserTunnels :: "MemoryStore \<Rightarrow> string \<Rightarrow> error + Tunnel list" where
  "GetUserTunnels ms userID = GetTunnelsByUserID ms userID"

section \<open>The admin handler\<close>

record CreateTunnelRequest =
  req_UserID :: string
  req_LocalPort :: int

text \<open>The JSON bodies the handler writes, and the reply with its status code.\<close>

datatype reply_body =
    ErrorDetails string string
  | TunnelCreated Tunnel

type_synonym reply = "int \<times> reply_body"

definition StatusCreated :: int where "StatusCreated = 201"
definition StatusBadRequest :: int where "StatusBadRequest = 400"
definition StatusInternalServerError :: int where "StatusInternalServerError = 500"
definition StatusBadGateway :: int where "StatusBadGateway = 502"

text \<open>
  \<open>Handler.CreateTunnel\<close>. The body parser belongs to the web framework: its verdict
  on the request body is the argument \<open>parsed\<close> (\<open>Inl\<close> its error text).
\<close>

definition Handler_CreateTunnel ::
  "TunnelConfig \<Rightarrow> MemoryStore \<Rightarrow> string + CreateTunnelRequest \<Rightarrow> string \<Rightarrow> string \<Rightarrow> time
     \<Rightarrow> MemoryStore \<times> reply" where
  "Handler_CreateTunnel config ms parsed tunnelID subdomain now =
     (case parsed of
        Inl err \<Rightarrow> (ms, (StatusBadRequest, ErrorDetails ''Invalid request body'' err))
      | Inr req \<Rightarrow>
          (case ValidatePort (req_LocalPort req) of
             Some err \<Rightarrow> (ms, (StatusBadRequest, ErrorDetails ''Invalid port'' (error_message err)))
           | None \<Rightarrow>
               (case Service_CreateTunnel config ms (req_UserID req) (req_LocalPort req)
                       tunnelID subdomain now of
                  (ms', Inl err) \<Rightarrow>
                    (ms', (StatusInternalServerError,
                           ErrorDetails ''Failed to create tunnel'' (error_message err)))
                | (ms', Inr tunnel) \<Rightarrow> (ms', (StatusCreated, TunnelCreated tunnel)))))"

text \<open>
  The user's tunnels whose status is active, read off the store entry by entry: what
  the listing and the per-user cap are compared with.
\<close>

definition active_tunnels_of :: "MemoryStore \<Rightarrow> string \<Rightarrow> Tunnel list" where
  "active_tunnels_of ms userID =
     filter (\<lambda>t. UserID t = userID \<and> Status t = TunnelStatusActive)
       (map snd (DAList.impl_of (tunnels ms)))"

text \<open>
  A run of consecutive create calls against one store. Each call brings its request
  and the UUID it draws; \<open>activated\<close> says whether the \<open>establishTunnel\<close> goroutine of a
  call has finished before the next call arrives. The result is the list of status
  codes.
\<close>

fun create_run ::
  "TunnelConfig \<Rightarrow> bool \<Rightarrow> MemoryStore \<Rightarrow> (CreateTunnelRequest \<times> string) list
     \<Rightarrow> MemoryStore \<times> reply list" where
  "create_run config activated ms [] = (ms, [])"
| "create_run config activated ms ((req, tunnelID) # calls) =
     (case Handler_CreateTunnel config ms (Inr req) tunnelID ''0a1b2c3d'' 0 of
        (ms', r) \<Rightarrow>
          (case create_run config activated
                  (if activated then establishTunnel ms' tunnelID (2 * second) else ms') calls of
             (ms'', rs) \<Rightarrow> (ms'', r # rs)))"

definition alice_3000 :: CreateTunnelRequest where
  "alice_3000 = \<lparr>req_UserID = ''alice'', req_LocalPort = 3000\<rparr>"

definition config_cap2 :: TunnelConfig where
  "config_cap2 = (GenerateTunnelConfig ''https://api.syntra.dev'')\<lparr>MaxTunnelsPerUser := 2\<rparr>"

section \<open>Subdomain extraction at the public edge\<close>

text \<open>
  The three functions of Go's \<open>strings\<close> package that \<open>extractSubdomain\<close> calls, for a
  one-byte separator: \<open>LastIndex\<close> answers \<open>-1\<close> when the byte does not occur.
\<close>

fun LastIndex :: "string \<Rightarrow> char \<Rightarrow> int" where
  "LastIndex [] c = -1"
| "LastIndex (x # xs) c =
     (let later = LastIndex xs c
      in if later \<noteq> -1 then later + 1 else if x = c then 0 else -1)"

definition HasSuffix :: "string \<Rightarrow> string \<Rightarrow> bool" where
  "HasSuffix s sfx =
     (length s \<ge> length sfx \<and> drop (length s - length sfx) s = sfx)"

definition TrimSuffix :: "string \<Rightarrow> string \<Rightarrow> string" where
  "TrimSuffix s sfx =
     (if HasSuffix s sfx then take (length s - length sfx) s else s)"

definition extractSubdomain :: "string \<Rightarrow> string \<Rightarrow> string" where
  "extractSubdomain baseDomain host =
     (let colonIndex = LastIndex host CHR '':'';
          host = (if colonIndex \<noteq> -1 then take (nat colonIndex) host else host);
          sfx = ''.'' @ baseDomain
      in if \<not> HasSuffix host sfx then ''''
         else (let subdomain = TrimSuffix host sfx
               in if subdomain = '''' \<or> subdomain = baseDomain then '''' else subdomain))"

text \<open>
  The host with an optional trailing \<open>:port\<close> stripped, said without indices: when the
  host has a colon, everything before its last colon.
\<close>

definition strip_port :: "string \<Rightarrow> string" where
  "strip_port host =
     (if CHR '':'' \<in> set host
      then rev (tl (dropWhile (\<lambda>c. c \<noteq> CHR '':'') (rev host)))
      else host)"

section \<open>Frames and HTTP messages\<close>

datatype TunnelMessageType =
    MessageTypeHandshake
  | MessageTypeRequest
  | MessageTypeResponse
  | MessageTypeHeartbeat
  | MessageTypeError
  | MessageTypeDisconnect
  | MessageTypeOther string

text \<open>
  A value of the \<open>Data\<close> payload as \<open>encoding/json\<close> decodes it into \<open>interface{}\<close>.
  JSON numbers arrive as \<open>float64\<close>. \<open>JNumber\<close> carries a whole number that \<open>int\<close>
  can hold, for which the conversion \<open>int(statusCode)\<close> is the identity. A number with
  a fraction (which the conversion truncates) or beyond the range of \<open>int\<close> (where the
  result of the conversion depends on the platform) has no value in this type.
\<close>

datatype json = JString string | JNumber int | JBool bool | JNull

text \<open>
  \<open>Data\<close> is only indexed, so it is a map; \<open>Headers\<close> is iterated, so it is an
  association list with distinct keys in the order of iteration.
\<close>

record TunnelMessage =
  msg_ID :: string
  msg_Type :: TunnelMessageType
  Data :: "string \<rightharpoonup> json"
  Headers :: "(string, string) alist"

text \<open>
  \<open>http.Request\<close> and \<open>http.Response\<close>, cut down to the fields the connector reads or
  writes. A header maps a name to its list of values. A body of \<open>None\<close> is Go's \<open>nil\<close>
  body; otherwise it is the bytes the reader will yield.
\<close>

record http_Request =
  Method :: string
  Path :: string
  RawQuery :: string
  Header :: "(string, string list) alist"
  Body :: "string option"
  ContentLength :: int

record http_Response =
  StatusCode :: int
  resp_Header :: "(string, string list) alist"
  resp_Body :: "string option"

text \<open>
  The response the handler has set on the context of the web framework when it
  returns: the status given to \<open>c.Status\<close>, the response headers and the body, either a
  JSON object with an \<open>error\<close> and an optional \<open>details\<close> field or raw bytes;
  \<open>Panicked\<close> when the handler panicked instead of returning. A fresh context answers
  200 with no body. \<open>fiber_Status\<close> is the number the handler set; the status line the
  framework writes for it (for a number that is no HTTP status, such as 0, it writes
  another one) is the framework's matter, outside this record.
\<close>

datatype fiber_body = JSONError string "string option" | RawBody string | Panicked

record fiber_Response =
  fiber_Status :: int
  fiber_Headers :: "(string, string) alist"
  fiber_Body :: fiber_body

definition new_fiber_Response :: fiber_Response where
  "new_fiber_Response = \<lparr>fiber_Status = 200, fiber_Headers = DAList.empty, fiber_Body = RawBody ''''\<rparr>"

text \<open>
  \<open>buildHTTPResponse\<close>. \<open>http.Header.Set\<close> stores the value under the canonical form of
  the key; the canonical form is the standard library's, hence the parameter \<open>canon\<close>.
  The type assertion \<open>.(float64)\<close> succeeds exactly on a JSON number. The function never
  assigns \<open>resp.Body\<close>, and its error result is always \<open>nil\<close>.
\<close>

fun buildHTTPResponse_headers ::
  "(string \<Rightarrow> string) \<Rightarrow> (string \<times> string) list \<Rightarrow> http_Response \<Rightarrow> http_Response" where
  "buildHTTPResponse_headers canon [] resp = resp"
| "buildHTTPResponse_headers canon ((key, val) # rest) resp =
     buildHTTPResponse_headers canon rest
       (resp\<lparr>resp_Header := DAList.update (canon key) [val] (resp_Header resp)\<rparr>)"

definition buildHTTPResponse :: "(string \<Rightarrow> string) \<Rightarrow> TunnelMessage \<Rightarrow> http_Response" where
  "buildHTTPResponse canon msg =
     (let resp = \<lparr>StatusCode = 200, resp_Header = DAList.empty, resp_Body = None\<rparr>;
          resp = (case Data msg ''status_code'' of
                    Some (JNumber statusCode) \<Rightarrow> resp\<lparr>StatusCode := statusCode\<rparr>
                  | _ \<Rightarrow> resp)
      in buildHTTPResponse_headers canon (DAList.impl_of (Headers msg)) resp)"

text \<open>
  \<open>httpResponseToFiber\<close>: the status, every header value (\<open>c.Set\<close> replaces, so the last
  value of a name stays), the timing header, and the body only if the response has one.
  \<open>responseTime\<close> is the measured duration in nanoseconds; it is not negative, so
  the truncating division of \<open>Milliseconds\<close> is \<open>div\<close>.
\<close>

fun copy_values :: "string \<Rightarrow> string list \<Rightarrow> fiber_Response \<Rightarrow> fiber_Response" where
  "copy_values key [] c = c"
| "copy_values key (val # vals) c =
     copy_values key vals (c\<lparr>fiber_Headers := DAList.update key val (fiber_Headers c)\<rparr>)"

fun copy_headers :: "(string \<times> string list) list \<Rightarrow> fiber_Response \<Rightarrow> fiber_Response" where
  "copy_headers [] c = c"
| "copy_headers ((key, vals) # rest) c = copy_headers rest (copy_values key vals c)"

definition httpResponseToFiber :: "fiber_Response \<Rightarrow> http_Response \<Rightarrow> int \<Rightarrow> fiber_Response" where
  "httpResponseToFiber c resp responseTime =
     (let c = c\<lparr>fiber_Status := StatusCode resp\<rparr>;
          c = copy_headers (DAList.impl_of (resp_Header resp)) c;
          c = c\<lparr>fiber_Headers := DAList.update ''X-Tunnel-Response-Time''
                  (show_int (responseTime div 1000000) @ ''ms'') (fiber_Headers c)\<rparr>
      in case resp_Body resp of
           Some body \<Rightarrow> c\<lparr>fiber_Body := RawBody body\<rparr>
         | None \<Rightarrow> c)"

section \<open>The tunnel manager\<close>

text \<open>
  Connections and channels are Go reference values: both registry maps hold the same
  \<open>*TunnelConnection\<close>, and a response channel is held by the pending table and by the
  waiting caller. They live in two stores indexed by address; \<open>next_addr\<close> is the next
  address \<open>new\<close> or \<open>make\<close> hands out.

  Of the web socket only the write side matters here: \<open>Conn_writable\<close> says whether
  \<open>WriteJSON\<close> on it succeeds. \<open>cancelled\<close> is the state of the connection's context.
  \<open>reader_blocked\<close> records that the read loop is stuck for ever in a send on a full
  channel. A channel is its buffer of capacity one.
\<close>

type_synonym addr = nat

record TunnelConnection =
  conn_ID :: string
  conn_UserID :: string
  Subdomain :: string
  conn_LocalPort :: int
  Conn_writable :: bool
  LastPing :: time
  conn_CreatedAt :: time
  pendingReqs :: "string \<rightharpoonup> addr"
  cancelled :: bool
  reader_blocked :: bool

text \<open>
  The effects on a session's pending table, socket and channels, in the order in which
  they happen. The functions below append to this trace as they act.
\<close>

datatype event =
    SlotInserted addr string
  | SlotRemoved addr string
  | SlotCompleted addr string
  | FrameWritten addr TunnelMessage
  | WriteFailed addr TunnelMessage

text \<open>
  \<open>connections\<close> is iterated by the cleanup routine, so it is an association list with
  distinct keys; \<open>subdomains\<close> is only indexed. The store is the one the service uses.
\<close>

record TunnelManager =
  conns :: "addr \<rightharpoonup> TunnelConnection"
  chans :: "addr \<rightharpoonup> TunnelMessage list"
  next_addr :: addr
  connections :: "(string, addr) alist"
  subdomains :: "string \<rightharpoonup> addr"
  store :: MemoryStore
  trace :: "event list"

definition NewTunnelManager :: "MemoryStore \<Rightarrow> TunnelManager" where
  "NewTunnelManager st =
     \<lparr>conns = Map.empty, chans = Map.empty, next_addr = 0, connections = DAList.empty,
      subdomains = Map.empty, store = st, trace = []\<rparr>"

definition generateSubdomain :: "string \<Rightarrow> string \<Rightarrow> string" where
  "generateSubdomain userID shortID = userID @ ''-'' @ shortID"

text \<open>\<open>conn.Conn.WriteJSON(msg)\<close>: the state and whether the write succeeded.\<close>

definition WriteJSON :: "TunnelManager \<Rightarrow> addr \<Rightarrow> TunnelMessage \<Rightarrow> TunnelManager \<times> bool" where
  "WriteJSON tm p msg =
     (case conns tm p of
        Some conn \<Rightarrow>
          if Conn_writable conn then (tm\<lparr>trace := trace tm @ [FrameWritten p msg]\<rparr>, True)
          else (tm\<lparr>trace := trace tm @ [WriteFailed p msg]\<rparr>, False)
      | None \<Rightarrow> (tm, False))"

text \<open>\<open>conn.pendingReqs[requestID] = responseChan\<close> and \<open>delete(conn.pendingReqs, requestID)\<close>.\<close>

definition pending_insert :: "TunnelManager \<Rightarrow> addr \<Rightarrow> string \<Rightarrow> addr \<Rightarrow> TunnelManager" where
  "pending_insert tm p requestID ch =
     (case conns tm p of
        Some conn \<Rightarrow>
          tm\<lparr>conns := (conns tm)(p \<mapsto> conn\<lparr>pendingReqs := (pendingReqs conn)(requestID \<mapsto> ch)\<rparr>),
             trace := trace tm @ [SlotInserted p requestID]\<rparr>
      | None \<Rightarrow> tm)"

definition pending_delete :: "TunnelManager \<Rightarrow> addr \<Rightarrow> string \<Rightarrow> TunnelManager" where
  "pending_delete tm p requestID =
     (case conns tm p of
        Some conn \<Rightarrow>
          tm\<lparr>conns := (conns tm)(p \<mapsto> conn\<lparr>pendingReqs := (pendingReqs conn)(requestID := None)\<rparr>),
             trace := trace tm @ [SlotRemoved p requestID]\<rparr>
      | None \<Rightarrow> tm)"

text \<open>\<open>conn.cancel()\<close>.\<close>

definition cancel :: "TunnelManager \<Rightarrow> addr \<Rightarrow> TunnelManager" where
  "cancel tm p =
     (case conns tm p of
        Some conn \<Rightarrow> tm\<lparr>conns := (conns tm)(p \<mapsto> conn\<lparr>cancelled := True\<rparr>)\<rparr>
      | None \<Rightarrow> tm)"

text \<open>
  \<open>registerConnection\<close> takes the pointer to the connection. The error of the store's
  \<open>CreateTunnel\<close> is dropped, as in the source.
\<close>

definition registerConnection :: "TunnelManager \<Rightarrow> addr \<Rightarrow> time \<Rightarrow> TunnelManager" where
  "registerConnection tm p now =
     (case conns tm p of
        Some conn \<Rightarrow>
          (let tunnel = \<lparr>ID = conn_ID conn, UserID = conn_UserID conn,
                  LocalPort = conn_LocalPort conn,
                  PublicURL = ''https://'' @ Subdomain conn @ ''.syntra.dev'',
                  Status = TunnelStatusActive, CreatedAt = conn_CreatedAt conn,
                  LastActivity = now, ExpiresAt = now + 24 * hour,
                  Analytics = Some new_Analytics\<rparr>
           in tm\<lparr>connections := DAList.update (conn_ID conn) p (connections tm),
                 subdomains := (subdomains tm)(Subdomain conn \<mapsto> p),
                 store := fst (Store_CreateTunnel (store tm) tunnel)\<rparr>)
      | None \<Rightarrow> tm)"

definition unregisterConnection :: "TunnelManager \<Rightarrow> string \<Rightarrow> time \<Rightarrow> TunnelManager" where
  "unregisterConnection tm connID now =
     (case DAList.lookup (connections tm) connID of
        Some p \<Rightarrow>
          (case conns tm p of
             Some conn \<Rightarrow>
               (let tm = cancel tm p
                in tm\<lparr>connections := DAList.delete connID (connections tm),
                      subdomains := (subdomains tm)(Subdomain conn := None),
                      store := fst (UpdateTunnelStatus (store tm) connID TunnelStatusTerminated now)\<rparr>)
           | None \<Rightarrow> tm)
      | None \<Rightarrow> tm)"

text \<open>
  One tick of \<open>cleanupRoutine\<close>: the \<open>range\<close> over \<open>tm.connections\<close>, with
  \<open>cleanup_entry\<close> as the body of the loop. Each round deletes at most its own key,
  so the loop visits the entries the map had at the start.
\<close>

definition cleanup_entry :: "string \<Rightarrow> addr \<Rightarrow> time \<Rightarrow> TunnelManager \<Rightarrow> TunnelManager" where
  "cleanup_entry connID p now tm =
     (case conns tm p of
        Some conn \<Rightarrow>
          if now - LastPing conn > 2 * minute
          then (let tm = cancel tm p
                in tm\<lparr>connections := DAList.delete connID (connections tm),
                      subdomains := (subdomains tm)(Subdomain conn := None)\<rparr>)
          else tm
      | None \<Rightarrow> tm)"

fun cleanup_loop :: "(string \<times> addr) list \<Rightarrow> time \<Rightarrow> TunnelManager \<Rightarrow> TunnelManager" where
  "cleanup_loop [] now tm = tm"
| "cleanup_loop ((connID, p) # rest) now tm =
     cleanup_loop rest now (cleanup_entry connID p now tm)"

definition cleanupRoutine_tick :: "TunnelManager \<Rightarrow> time \<Rightarrow> TunnelManager" where
  "cleanupRoutine_tick tm now = cleanup_loop (DAList.impl_of (connections tm)) now tm"

subsection \<open>The read loop and the heartbeat loop\<close>

text \<open>
  \<open>handleResponse\<close>: the send \<open>responseChan <- msg\<close> goes through when the buffer has
  room; then the entry is deleted. On a full (or nil) channel the send never returns,
  and the read loop of the connection is stuck from then on.
\<close>

definition handleResponse :: "TunnelManager \<Rightarrow> addr \<Rightarrow> TunnelMessage \<Rightarrow> TunnelManager" where
  "handleResponse tm p msg =
     (case conns tm p of
        Some conn \<Rightarrow>
          (case pendingReqs conn (msg_ID msg) of
             Some ch \<Rightarrow>
               (case chans tm ch of
                  Some [] \<Rightarrow>
                    pending_delete
                      (tm\<lparr>chans := (chans tm)(ch \<mapsto> [msg]),
                          trace := trace tm @ [SlotCompleted p (msg_ID msg)]\<rparr>)
                      p (msg_ID msg)
                | _ \<Rightarrow> tm\<lparr>conns := (conns tm)(p \<mapsto> conn\<lparr>reader_blocked := True\<rparr>)\<rparr>)
           | None \<Rightarrow> tm)
      | None \<Rightarrow> tm)"

text \<open>\<open>handleHeartbeat\<close> writes a heartbeat frame and drops the result of the write.\<close>

definition handleHeartbeat :: "TunnelManager \<Rightarrow> addr \<Rightarrow> string \<Rightarrow> time \<Rightarrow> TunnelManager" where
  "handleHeartbeat tm p uuid now =
     fst (WriteJSON tm p
       \<lparr>msg_ID = uuid, msg_Type = MessageTypeHeartbeat,
        Data = [''timestamp'' \<mapsto> JNumber (now div second)], Headers = DAList.empty\<rparr>)"

text \<open>
  One round of the loop of \<open>handleMessages\<close> in which \<open>ReadJSON\<close> yields \<open>msg\<close>: the
  context check, the refresh of \<open>LastPing\<close>, the dispatch on the type. The round is
  taken as one step. \<open>uuid\<close> is the id a heartbeat echo would get.
\<close>

definition handleMessages_round ::
  "TunnelManager \<Rightarrow> addr \<Rightarrow> time \<Rightarrow> string \<Rightarrow> TunnelMessage \<Rightarrow> TunnelManager" where
  "handleMessages_round tm p now uuid msg =
     (case conns tm p of
        Some conn \<Rightarrow>
          if cancelled conn \<or> reader_blocked conn then tm
          else
            (let tm = tm\<lparr>conns := (conns tm)(p \<mapsto> conn\<lparr>LastPing := now\<rparr>)\<rparr>
             in case msg_Type msg of
                  MessageTypeResponse \<Rightarrow> handleResponse tm p msg
                | MessageTypeHeartbeat \<Rightarrow> handleHeartbeat tm p uuid now
                | _ \<Rightarrow> tm)
      | None \<Rightarrow> tm)"

text \<open>
  \<open>HandleWebSocket\<close> up to the point where its loops run: the new connection, its
  registration and the handshake. \<open>connID\<close>, \<open>shortID\<close> (the first eight characters of
  a UUID) and \<open>handshakeID\<close> are the random values drawn; \<open>writable\<close> is whether the
  socket takes writes. When the handshake cannot be written the function returns, and
  its deferred \<open>unregisterConnection\<close> runs.
\<close>

definition HandleWebSocket_connect ::
  "TunnelManager \<Rightarrow> string \<Rightarrow> string \<Rightarrow> string \<Rightarrow> string \<Rightarrow> bool \<Rightarrow> time \<Rightarrow> TunnelManager" where
  "HandleWebSocket_connect tm userID connID shortID handshakeID writable now =
     (let p = next_addr tm;
          tunnelConn = \<lparr>conn_ID = connID, conn_UserID = userID,
             Subdomain = generateSubdomain userID shortID, conn_LocalPort = 0,
             Conn_writable = writable, LastPing = now, conn_CreatedAt = now,
             pendingReqs = Map.empty, cancelled = False, reader_blocked = False\<rparr>;
          tm = tm\<lparr>conns := (conns tm)(p \<mapsto> tunnelConn), next_addr := Suc p\<rparr>;
          tm = registerConnection tm p now;
          handshake = \<lparr>msg_ID = handshakeID, msg_Type = MessageTypeHandshake,
             Data = [''tunnel_id'' \<mapsto> JString connID,
                     ''subdomain'' \<mapsto> JString (Subdomain tunnelConn),
                     ''public_url'' \<mapsto> JString (''https://'' @ Subdomain tunnelConn @ ''.syntra.dev''),
                     ''status'' \<mapsto> JString ''connected''],
             Headers = DAList.empty\<rparr>
      in case WriteJSON tm p handshake of
           (tm, True) \<Rightarrow> tm
         | (tm, False) \<Rightarrow> unregisterConnection tm connID now)"

text \<open>
  One tick of \<open>heartbeatLoop\<close>. When the loop returns (the context is done, or no frame
  came for sixty seconds), \<open>HandleWebSocket\<close> returns and unregisters the connection.
\<close>

definition heartbeatLoop_tick :: "TunnelManager \<Rightarrow> addr \<Rightarrow> string \<Rightarrow> time \<Rightarrow> TunnelManager" where
  "heartbeatLoop_tick tm p uuid now =
     (case conns tm p of
        Some conn \<Rightarrow>
          if cancelled conn \<or> now - LastPing conn > 60 * second
          then unregisterConnection tm (conn_ID conn) now
          else handleHeartbeat tm p uuid now
      | None \<Rightarrow> tm)"

text \<open>What the other goroutines and the agent can do while a caller waits.\<close>

datatype env_action =
    AgentFrame addr time string TunnelMessage
  | HeartbeatTick addr string time
  | CleanupTick time
  | Unregister string time
  | SocketBreaks addr

fun env_step :: "TunnelManager \<Rightarrow> env_action \<Rightarrow> TunnelManager" where
  "env_step tm (AgentFrame p now uuid msg) = handleMessages_round tm p now uuid msg"
| "env_step tm (HeartbeatTick p uuid now) = heartbeatLoop_tick tm p uuid now"
| "env_step tm (CleanupTick now) = cleanupRoutine_tick tm now"
| "env_step tm (Unregister connID now) = unregisterConnection tm connID now"
| "env_step tm (SocketBreaks p) =
     (case conns tm p of
        Some conn \<Rightarrow> tm\<lparr>conns := (conns tm)(p \<mapsto> conn\<lparr>Conn_writable := False\<rparr>)\<rparr>
      | None \<Rightarrow> tm)"

definition run_env :: "TunnelManager \<Rightarrow> env_action list \<Rightarrow> TunnelManager" where
  "run_env tm env = foldl env_step tm env"

subsection \<open>Forwarding a request\<close>

text \<open>The header loop of \<open>ForwardRequest\<close>: the first value of every name that has one.\<close>

fun first_values :: "(string \<times> string list) list \<Rightarrow> (string, string) alist \<Rightarrow> (string, string) alist" where
  "first_values [] hs = hs"
| "first_values ((key, vals) # rest) hs =
     first_values rest (if length vals > 0 then DAList.update key (hd vals) hs else hs)"

text \<open>
  The body read: a buffer of \<open>ContentLength\<close> zero bytes (\<open>make\<close> panics on a negative
  length), one \<open>Read\<close> into it, and the whole buffer as the string.
\<close>

definition read_body :: "http_Request \<Rightarrow> error + string" where
  "read_body req =
     (case Body req of
        None \<Rightarrow> Inr ''''
      | Some bytes \<Rightarrow>
          if ContentLength req < 0 then Inl ErrPanic
          else Inr (take (nat (ContentLength req)) bytes @
                    replicate (nat (ContentLength req) - length bytes) (CHR 0x00)))"

definition request_frame :: "http_Request \<Rightarrow> string \<Rightarrow> string \<Rightarrow> TunnelMessage" where
  "request_frame req requestID body =
     \<lparr>msg_ID = requestID, msg_Type = MessageTypeRequest,
      Data = [''method'' \<mapsto> JString (Method req), ''path'' \<mapsto> JString (Path req),
              ''query'' \<mapsto> JString (RawQuery req), ''body'' \<mapsto> JString body],
      Headers = first_values (DAList.impl_of (Header req)) DAList.empty\<rparr>"

text \<open>
  \<open>ForwardRequest\<close> up to the \<open>select\<close>: the lookup, the request frame, the new
  channel, the insertion of the slot and the write. It answers with the error, or with
  the connection and the channel the caller now waits on. \<open>requestID\<close> is the UUID drawn.
\<close>

definition ForwardRequest_send ::
  "TunnelManager \<Rightarrow> string \<Rightarrow> http_Request \<Rightarrow> string \<Rightarrow> TunnelManager \<times> (error + addr \<times> addr)" where
  "ForwardRequest_send tm subdomain req requestID =
     (case subdomains tm subdomain of
        None \<Rightarrow> (tm, Inl (ErrNoActiveTunnel subdomain))
      | Some p \<Rightarrow>
          (case read_body req of
             Inl err \<Rightarrow> (tm, Inl err)
           | Inr body \<Rightarrow>
               (let requestMsg = request_frame req requestID body;
                    responseChan = next_addr tm;
                    tm = tm\<lparr>chans := (chans tm)(responseChan \<mapsto> []), next_addr := Suc responseChan\<rparr>
                in case conns tm p of
                     None \<Rightarrow> (tm, Inl ErrPanic)
                   | Some _ \<Rightarrow>
                       (let tm = pending_insert tm p requestID responseChan
                        in case WriteJSON tm p requestMsg of
                             (tm, False) \<Rightarrow> (pending_delete tm p requestID, Inl ErrSendFailed)
                           | (tm, True) \<Rightarrow> (tm, Inr (p, responseChan))))))"

text \<open>
  The \<open>select\<close> at the moment it fires: a frame in the channel is received and turned
  into the response; with the channel still empty after thirty seconds the slot is
  deleted and the call fails.
\<close>

definition ForwardRequest_wait ::
  "(string \<Rightarrow> string) \<Rightarrow> TunnelManager \<Rightarrow> addr \<Rightarrow> string \<Rightarrow> addr
     \<Rightarrow> TunnelManager \<times> (error + http_Response)" where
  "ForwardRequest_wait canon tm p requestID responseChan =
     (case chans tm responseChan of
        Some (responseMsg # rest) \<Rightarrow>
          (tm\<lparr>chans := (chans tm)(responseChan \<mapsto> rest)\<rparr>, Inr (buildHTTPResponse canon responseMsg))
      | _ \<Rightarrow> (pending_delete tm p requestID, Inl ErrRequestTimeout))"

text \<open>
  The whole call. \<open>env\<close> is what the agent and the other goroutines do between the
  write and the moment the \<open>select\<close> fires.
\<close>

definition ForwardRequest ::
  "(string \<Rightarrow> string) \<Rightarrow> TunnelManager \<Rightarrow> string \<Rightarrow> http_Request \<Rightarrow> string \<Rightarrow> env_action list
     \<Rightarrow> TunnelManager \<times> (error + http_Response)" where
  "ForwardRequest canon tm subdomain req requestID env =
     (case ForwardRequest_send tm subdomain req requestID of
        (tm, Inl err) \<Rightarrow> (tm, Inl err)
      | (tm, Inr (p, responseChan)) \<Rightarrow>
          ForwardRequest_wait canon (run_env tm env) p requestID responseChan)"

subsection \<open>The public edge\<close>

record fiber_Ctx =
  ctx_Host :: string
  ctx_Method :: string
  ctx_OriginalURL :: string
  ctx_Protocol :: string
  ctx_Headers :: "(string \<times> string) list"
  ctx_Body :: string

text \<open>\<open>req.Header.Add\<close>: the value goes behind the values the canonical name has.\<close>

fun add_headers ::
  "(string \<Rightarrow> string) \<Rightarrow> (string \<times> string) list \<Rightarrow> (string, string list) alist
     \<Rightarrow> (string, string list) alist" where
  "add_headers canon [] hs = hs"
| "add_headers canon ((key, val) # rest) hs =
     add_headers canon rest
       (DAList.update (canon key)
          ((case DAList.lookup hs (canon key) of Some vals \<Rightarrow> vals | None \<Rightarrow> []) @ [val]) hs)"

text \<open>
  \<open>fiberToHTTPRequest\<close>. \<open>http.NewRequest\<close> is the standard library's: the parameter
  \<open>newRequest\<close> takes the method, the URL and the body and answers \<open>None\<close> for its error.
\<close>

definition fiberToHTTPRequest ::
  "(string \<Rightarrow> string \<Rightarrow> string \<Rightarrow> http_Request option) \<Rightarrow> (string \<Rightarrow> string) \<Rightarrow> fiber_Ctx
     \<Rightarrow> http_Request option" where
  "fiberToHTTPRequest newRequest canon c =
     (let scheme = (if ctx_Protocol c = ''https'' then ''https'' else ''http'');
          url = scheme @ ''://'' @ ctx_Host c @ ctx_OriginalURL c
      in case newRequest (ctx_Method c) url (ctx_Body c) of
           None \<Rightarrow> None
         | Some req \<Rightarrow> Some (req\<lparr>Header := add_headers canon (ctx_Headers c) (Header req)\<rparr>))"

definition reply_error :: "int \<Rightarrow> string \<Rightarrow> string option \<Rightarrow> fiber_Response" where
  "reply_error code err details =
     new_fiber_Response\<lparr>fiber_Status := code, fiber_Body := JSONError err details\<rparr>"

text \<open>
  \<open>ReverseProxy.ProxyHandler\<close>. \<open>responseTime\<close> is the duration it measures around
  \<open>ForwardRequest\<close>. A panic of \<open>ForwardRequest\<close> is not an error value and passes
  through the handler.
\<close>

definition ProxyHandler ::
  "(string \<Rightarrow> string \<Rightarrow> string \<Rightarrow> http_Request option) \<Rightarrow> (string \<Rightarrow> string) \<Rightarrow> string
     \<Rightarrow> TunnelManager \<Rightarrow> fiber_Ctx \<Rightarrow> string \<Rightarrow> env_action list \<Rightarrow> int
     \<Rightarrow> TunnelManager \<times> fiber_Response" where
  "ProxyHandler newRequest canon baseDomain tm c requestID env responseTime =
     (let subdomain = extractSubdomain baseDomain (ctx_Host c)
      in if subdomain = '''' then (tm, reply_error StatusBadRequest ''Invalid subdomain'' None)
         else
           (case fiberToHTTPRequest newRequest canon c of
              None \<Rightarrow> (tm, reply_error StatusInternalServerError ''Failed to process request'' None)
            | Some req \<Rightarrow>
                (case ForwardRequest canon tm subdomain req requestID env of
                   (tm, Inl ErrPanic) \<Rightarrow> (tm, new_fiber_Response\<lparr>fiber_Body := Panicked\<rparr>)
                 | (tm, Inl err) \<Rightarrow>
                     (tm, reply_error StatusBadGateway ''Tunnel unavailable''
                            (Some (error_message err)))
                 | (tm, Inr resp) \<Rightarrow>
                     (tm, httpResponseToFiber new_fiber_Response resp responseTime))))"

subsection \<open>Runs of the manager\<close>

text \<open>
  The operations that act on a manager, and the state after a sequence of them from a
  new manager. \<open>fresh_run\<close> says that every connect of the sequence drew a connection id
  and a subdomain that the registry did not hold at that moment.
\<close>

datatype op =
    Connect string string string string bool time
  | Forward string http_Request string "env_action list"
  | Env env_action

fun run_op :: "(string \<Rightarrow> string) \<Rightarrow> TunnelManager \<Rightarrow> op \<Rightarrow> TunnelManager" where
  "run_op canon tm (Connect userID connID shortID handshakeID writable now) =
     HandleWebSocket_connect tm userID connID shortID handshakeID writable now"
| "run_op canon tm (Forward subdomain req requestID env) =
     fst (ForwardRequest canon tm subdomain req requestID env)"
| "run_op canon tm (Env a) = env_step tm a"

definition run_ops :: "(string \<Rightarrow> string) \<Rightarrow> TunnelManager \<Rightarrow> op list \<Rightarrow> TunnelManager" where
  "run_ops canon tm ops = foldl (run_op canon) tm ops"

fun fresh_run :: "(string \<Rightarrow> string) \<Rightarrow> TunnelManager \<Rightarrow> op list \<Rightarrow> bool" where
  "fresh_run canon tm [] = True"
| "fresh_run canon tm (Connect userID connID shortID handshakeID writable now # ops) =
     (DAList.lookup (connections tm) connID = None \<and>
      subdomains tm (generateSubdomain userID shortID) = None \<and>
      fresh_run canon
        (run_op canon tm (Connect userID connID shortID handshakeID writable now)) ops)"
| "fresh_run canon tm (x # ops) = fresh_run canon (run_op canon tm x) ops"

subsection \<open>A concrete session\<close>

text \<open>
  The values used to run the model on concrete inputs: one agent of user \<open>alice\<close>
  connected under the subdomain \<open>alice-abcd1234\<close>, a public request with the body
  \<open>ping\<close>, an agent that answers a request frame with status 200 and the request's own
  body, and stand-ins for the two library functions (a request constructor that takes
  any method and URL, and header names that are canonical already).
\<close>

definition example_newRequest :: "string \<Rightarrow> string \<Rightarrow> string \<Rightarrow> http_Request option" where
  "example_newRequest method url body =
     Some \<lparr>Method = method, Path = ''/echo'', RawQuery = '''', Header = DAList.empty,
           Body = Some body, ContentLength = int (length body)\<rparr>"

definition alice_session :: TunnelManager where
  "alice_session =
     run_ops id (NewTunnelManager NewMemoryStore)
       [Connect ''alice'' ''c1'' ''abcd1234'' ''h1'' True 0]"

definition ping_ctx :: fiber_Ctx where
  "ping_ctx =
     \<lparr>ctx_Host = ''alice-abcd1234.syntra.dev'', ctx_Method = ''POST'',
      ctx_OriginalURL = ''/echo'', ctx_Protocol = ''https'', ctx_Headers = [],
      ctx_Body = ''ping''\<rparr>"

definition echo_response :: "string \<Rightarrow> string \<Rightarrow> TunnelMessage" where
  "echo_response requestID body =
     \<lparr>msg_ID = requestID, msg_Type = MessageTypeResponse,
      Data = [''status_code'' \<mapsto> JNumber 200, ''body'' \<mapsto> JString body],
      Headers = DAList.empty\<rparr>"

subsection \<open>Notions the properties are stated with\<close>

text \<open>
  The two indices of the registry agree: an entry of the id index points at a
  connection that carries this id and whose subdomain the subdomain index maps to the
  same connection, and the other way round.
\<close>

definition registry_consistent :: "TunnelManager \<Rightarrow> bool" where
  "registry_consistent tm \<longleftrightarrow>
     (\<forall>connID p. DAList.lookup (connections tm) connID = Some p \<longrightarrow>
        (\<exists>conn. conns tm p = Some conn \<and> conn_ID conn = connID \<and>
                subdomains tm (Subdomain conn) = Some p)) \<and>
     (\<forall>sub p. subdomains tm sub = Some p \<longrightarrow>
        (\<exists>conn. conns tm p = Some conn \<and> Subdomain conn = sub \<and>
                DAList.lookup (connections tm) (conn_ID conn) = Some p))"

text \<open>The id and the subdomain of the connection at an address, if there is one.\<close>

definition conn_keys :: "TunnelManager \<Rightarrow> addr \<Rightarrow> (string \<times> string) option" where
  "conn_keys tm p = map_option (\<lambda>conn. (conn_ID conn, Subdomain conn)) (conns tm p)"

text \<open>The pending table of the connection at an address, if there is one.\<close>

definition pending_of :: "TunnelManager \<Rightarrow> addr \<Rightarrow> (string \<rightharpoonup> addr) option" where
  "pending_of tm p = map_option pendingReqs (conns tm p)"

text \<open>
  No address at or beyond \<open>next_addr\<close> is in use: no connection or channel lives there
  and no pending table refers to it.
\<close>

definition heap_ok :: "TunnelManager \<Rightarrow> bool" where
  "heap_ok tm \<longleftrightarrow>
     (\<forall>a. next_addr tm \<le> a \<longrightarrow> conns tm a = None \<and> chans tm a = None) \<and>
     (\<forall>p conn r ch. conns tm p = Some conn \<and> pendingReqs conn r = Some ch \<longrightarrow> ch < next_addr tm)"

text \<open>
  An action of the environment during which the agent of connection \<open>p\<close> does not
  answer request \<open>requestID\<close>: a frame read from some agent that is not a response frame
  with this id on this connection.
\<close>

fun silent_action :: "addr \<Rightarrow> string \<Rightarrow> env_action \<Rightarrow> bool" where
  "silent_action p requestID (AgentFrame q now uuid msg) =
     (\<not> (q = p \<and> msg_Type msg = MessageTypeResponse \<and> msg_ID msg = requestID))"
| "silent_action p requestID _ = False"

text \<open>
  Any action of the environment but the answer to request \<open>requestID\<close> on connection
  \<open>p\<close>: the frames above, and also the ticks of the heartbeat loop and of the cleanup
  routine, an unregistration and a socket that breaks.
\<close>

fun no_answer :: "addr \<Rightarrow> string \<Rightarrow> env_action \<Rightarrow> bool" where
  "no_answer p requestID (AgentFrame q now uuid msg) =
     (\<not> (q = p \<and> msg_Type msg = MessageTypeResponse \<and> msg_ID msg = requestID))"
| "no_answer p requestID _ = True"

text \<open>
  The connection of that session as \<open>HandleWebSocket\<close> creates it, and the public
  request as the \<open>http.Request\<close> it becomes.
\<close>

definition alice_conn :: TunnelConnection where
  "alice_conn =
     \<lparr>conn_ID = ''c1'', conn_UserID = ''alice'', Subdomain = ''alice-abcd1234'',
      conn_LocalPort = 0, Conn_writable = True, LastPing = 0, conn_CreatedAt = 0,
      pendingReqs = Map.empty, cancelled = False, reader_blocked = False\<rparr>"

definition ping_request :: http_Request where
  "ping_request =
     \<lparr>Method = ''POST'', Path = ''/echo'', RawQuery = '''', Header = DAList.empty,
      Body = Some ''ping'', ContentLength = 4\<rparr>"

text \<open>
  A caller waits on channel \<open>ch\<close> for the answer to \<open>requestID\<close> on connection \<open>p\<close>: its
  slot is in the pending table, the channel is empty, and no other slot holds the
  channel.
\<close>

definition waiting :: "TunnelManager \<Rightarrow> addr \<Rightarrow> string \<Rightarrow> addr \<Rightarrow> bool" where
  "waiting tm p requestID ch \<longleftrightarrow>
     (\<exists>conn. conns tm p = Some conn \<and> pendingReqs conn requestID = Some ch) \<and>
     chans tm ch = Some [] \<and>
     (\<forall>q conn r. conns tm q = Some conn \<and> pendingReqs conn r = Some ch \<longrightarrow>
        q = p \<and> r = requestID)"

section \<open>Properties of the substring check\<close>

lemma findSubstring_from_iff:
  "0 \<le> i \<Longrightarrow> findSubstring_from tx sub i \<longleftrightarrow>
     (\<exists>j. i \<le> j \<and> j \<le> int (length tx) - int (length sub) \<and>
          take (length sub) (drop (nat j) tx) = sub)"
proof (induction tx sub i rule: findSubstring_from.induct)
  case (1 tx sub i)
  show ?case
  proof (cases "i \<le> int (length tx) - int (length sub)")
    case False
    then show ?thesis
      by (subst findSubstring_from.simps) auto
  next
    case True
    show ?thesis
    proof (cases "take (length sub) (drop (nat i) tx) = sub")
      case hit: True
      with True show ?thesis
        by (subst findSubstring_from.simps) auto
    next
      case miss: False
      have "findSubstring_from tx sub i = findSubstring_from tx sub (i + 1)"
        using True miss by (subst findSubstring_from.simps) simp
      also have "\<dots> \<longleftrightarrow> (\<exists>j. i + 1 \<le> j \<and> j \<le> int (length tx) - int (length sub) \<and>
          take (length sub) (drop (nat j) tx) = sub)"
        using "1.IH" [OF True miss] "1.prems" by simp
      also have "\<dots> \<longleftrightarrow> (\<exists>j. i \<le> j \<and> j \<le> int (length tx) - int (length sub) \<and>
          take (length sub) (drop (nat j) tx) = sub)"
      proof -
        have "j = i \<or> i + 1 \<le> j" if "i \<le> j" for j :: int
          using that by arith
        with miss show ?thesis
          by (metis add.commute add_le_cancel_left le_add_same_cancel2 order.trans zero_less_one_class.zero_le_one)
      qed
      finally show ?thesis .
    qed
  qed
qed

lemma sublist_iff_slice:
  "sublist sub tx \<longleftrightarrow>
     (\<exists>j. 0 \<le> j \<and> j \<le> int (length tx) - int (length sub) \<and>
          take (length sub) (drop (nat j) tx) = sub)"
proof
  assume "sublist sub tx"
  then obtain ps ss where t: "tx = ps @ sub @ ss"
    by (auto simp: sublist_def)
  have "take (length sub) (drop (nat (int (length ps))) tx) = sub"
    by (simp add: t)
  moreover have "int (length ps) \<le> int (length tx) - int (length sub)"
    by (simp add: t)
  ultimately show "\<exists>j. 0 \<le> j \<and> j \<le> int (length tx) - int (length sub) \<and>
          take (length sub) (drop (nat j) tx) = sub"
    by (intro exI [of _ "int (length ps)"]) simp
next
  assume "\<exists>j. 0 \<le> j \<and> j \<le> int (length tx) - int (length sub) \<and>
          take (length sub) (drop (nat j) tx) = sub"
  then obtain j where j: "take (length sub) (drop (nat j) tx) = sub"
    by blast
  have "tx = take (nat j) tx @ drop (nat j) tx"
    by simp
  also have "drop (nat j) tx =
      take (length sub) (drop (nat j) tx) @ drop (length sub) (drop (nat j) tx)"
    by (simp only: append_take_drop_id)
  finally have "tx = take (nat j) tx @ sub @ drop (length sub) (drop (nat j) tx)"
    by (simp only: j)
  then show "sublist sub tx"
    unfolding sublist_def by blast
qed

lemma findSubstring_iff: "findSubstring tx sub \<longleftrightarrow> sublist sub tx"
  unfolding findSubstring_def by (simp add: findSubstring_from_iff sublist_iff_slice)

lemma sublist_same_length: "sublist sub tx \<Longrightarrow> length tx \<le> length sub \<Longrightarrow> tx = sub"
  by (auto simp: sublist_def)

text \<open>
  Claim C9, as amended. \<open>contains\<close> is the plain substring test on non-empty strings:
  it holds exactly when both strings are non-empty and the substring occurs in the
  text (case-sensitively, byte for byte). In particular \<open>contains s s\<close> holds for every
  non-empty \<open>s\<close>, through the \<open>text == substring\<close> disjunct; and for a text strictly
  longer than a non-empty substring it holds exactly when the substring occurs.
\<close>

theorem contains_is_substring_test:
  "(contains tx sub \<longleftrightarrow> tx \<noteq> [] \<and> sub \<noteq> [] \<and> sublist sub tx) \<and>
   (s \<noteq> [] \<longrightarrow> contains s s) \<and>
   (sub \<noteq> [] \<and> length sub < length tx \<longrightarrow> (contains tx sub \<longleftrightarrow> sublist sub tx))"
proof -
  have main: "contains a b \<longleftrightarrow> a \<noteq> [] \<and> b \<noteq> [] \<and> sublist b a" for a b
    unfolding contains_def findSubstring_iff
    using sublist_same_length [of b a] sublist_length_le [of b a]
    by (cases "length b < length a") auto
  have "s \<noteq> [] \<longrightarrow> contains s s"
    by (simp add: main)
  moreover have "sub \<noteq> [] \<and> length sub < length tx \<longrightarrow> (contains tx sub \<longleftrightarrow> sublist sub tx)"
    by (auto simp: main)
  ultimately show ?thesis
    using main [of tx sub] by blast
qed

theorem contains_is_substring_test_witness:
  "contains ''hello world'' ''lo w'' \<and> contains ''pong'' ''pong'' \<and> \<not> contains ''pong'' ''ping''"
proof -
  have a: "''hello world'' \<noteq> [] \<and> ''lo w'' \<noteq> [] \<and> sublist ''lo w'' ''hello world''"
    by code_simp
  have b: "\<not> (''pong'' \<noteq> [] \<and> ''ping'' \<noteq> [] \<and> sublist ''ping'' ''pong'')"
    by code_simp
  have c: "''pong'' \<noteq> []"
    by simp
  from contains_is_substring_test [of "''hello world''" "''lo w''" "''pong''"] a c
  have "contains ''hello world'' ''lo w''" "contains ''pong'' ''pong''"
    by blast+
  moreover from contains_is_substring_test [of "''pong''" "''ping''" "''pong''"] b
  have "\<not> contains ''pong'' ''ping''"
    by blast
  ultimately show ?thesis
    by blast
qed

text \<open>The claim as stated fails: on equal non-empty strings the check answers true.\<close>

theorem contains_equal_counterexample: "contains ''pong'' ''pong''"
  by (simp add: contains_def)

section \<open>Properties of the store, the service and the admin handler\<close>

lemma GetTunnelsByUserID_loop_filter:
  "GetTunnelsByUserID_loop ts userID acc =
     acc @ filter (\<lambda>t. UserID t = userID \<and> Status t = TunnelStatusActive) ts"
  by (induction ts arbitrary: acc) auto

lemma GetTunnelsByUserID_active:
  "GetTunnelsByUserID ms userID = Inr (active_tunnels_of ms userID)"
  by (simp add: GetTunnelsByUserID_def active_tunnels_of_def GetTunnelsByUserID_loop_filter)

lemma isPortAllowed_loop_iff: "isPortAllowed_loop ps port \<longleftrightarrow> port \<in> set ps"
  by (induction ps) auto

lemma Service_CreateTunnel_cases:
  "snd (Service_CreateTunnel config ms userID port tid sub now) =
     (if \<not> isPortAllowed config port then Inl (ErrPortNotAllowed port)
      else if MaxTunnelsPerUser config \<le> int (length (active_tunnels_of ms userID))
        then Inl (ErrMaxTunnels (MaxTunnelsPerUser config))
      else if DAList.lookup (tunnels ms) tid \<noteq> None then Inl (ErrCreateFailed (ErrTunnelExists tid))
      else Inr \<lparr>ID = tid, UserID = userID, LocalPort = port,
                      PublicURL = generatePublicURL config sub tid,
                      Status = TunnelStatusConnecting, CreatedAt = now, LastActivity = now,
                      ExpiresAt = now + TunnelExpiration config,
                      Analytics = Some new_Analytics\<rparr>)"
  by (auto simp: Service_CreateTunnel_def GetTunnelsByUserID_active Store_CreateTunnel_def Let_def
      split: option.splits)

lemma check_restricted_None: "check_restricted rs port = None \<longleftrightarrow> port \<notin> set rs"
  by (induction rs) auto

lemma ValidatePort_None_iff:
  "ValidatePort port = None \<longleftrightarrow> 1 \<le> port \<and> port \<le> 65535 \<and> port \<notin> set restrictedPorts"
  by (auto simp: ValidatePort_def check_restricted_None)

lemma Handler_CreateTunnel_reply:
  "snd (Handler_CreateTunnel config ms (Inr req) tid sub now) =
     (case ValidatePort (req_LocalPort req) of
        Some err \<Rightarrow> (StatusBadRequest, ErrorDetails ''Invalid port'' (error_message err))
      | None \<Rightarrow>
          (case snd (Service_CreateTunnel config ms (req_UserID req) (req_LocalPort req) tid sub now) of
             Inl err \<Rightarrow> (StatusInternalServerError,
                          ErrorDetails ''Failed to create tunnel'' (error_message err))
           | Inr tunnel \<Rightarrow> (StatusCreated, TunnelCreated tunnel)))"
  by (cases "Service_CreateTunnel config ms (req_UserID req) (req_LocalPort req) tid sub now")
    (simp add: Handler_CreateTunnel_def split: option.splits sum.splits)

lemma Handler_CreateTunnel_status:
  "fst (snd (Handler_CreateTunnel config ms (Inr req) tid sub now)) =
     (if ValidatePort (req_LocalPort req) \<noteq> None then StatusBadRequest
      else if isPortAllowed config (req_LocalPort req) \<and>
              int (length (active_tunnels_of ms (req_UserID req))) < MaxTunnelsPerUser config \<and>
              DAList.lookup (tunnels ms) tid = None
      then StatusCreated else StatusInternalServerError)"
  by (auto simp: Handler_CreateTunnel_reply Service_CreateTunnel_cases split: option.splits)

text \<open>
  Claim C4, as amended. \<open>ServiceImpl.CreateTunnel\<close> fails with the error "maximum number
  of tunnels (N) exceeded for user" exactly when the port is on the allow list and the
  user already has at least \<open>MaxTunnelsPerUser\<close> tunnels whose status is active; it
  succeeds exactly when the port is allowed, the user has fewer active tunnels than that
  and the drawn tunnel id is not in the store yet. For a request that passes
  \<open>ValidatePort\<close>, the handler answers 500 with the error's text on every failure of the
  service and 201 with the tunnel otherwise.
\<close>

theorem CreateTunnel_cap:
  "(snd (Service_CreateTunnel config ms userID port tid sub now) =
       Inl (ErrMaxTunnels (MaxTunnelsPerUser config)) \<longleftrightarrow>
     isPortAllowed config port \<and>
     MaxTunnelsPerUser config \<le> int (length (active_tunnels_of ms userID))) \<and>
   ((\<exists>t. snd (Service_CreateTunnel config ms userID port tid sub now) = Inr t) \<longleftrightarrow>
     isPortAllowed config port \<and>
     int (length (active_tunnels_of ms userID)) < MaxTunnelsPerUser config \<and>
     DAList.lookup (tunnels ms) tid = None) \<and>
   (ValidatePort port = None \<longrightarrow>
     snd (Handler_CreateTunnel config ms (Inr \<lparr>req_UserID = userID, req_LocalPort = port\<rparr>)
            tid sub now) =
       (case snd (Service_CreateTunnel config ms userID port tid sub now) of
          Inl err \<Rightarrow> (500, ErrorDetails ''Failed to create tunnel'' (error_message err))
        | Inr tunnel \<Rightarrow> (201, TunnelCreated tunnel))) \<and>
   error_message (ErrMaxTunnels 2) = ''maximum number of tunnels (2) exceeded for user''"
proof (intro conjI)
  show "snd (Service_CreateTunnel config ms userID port tid sub now) =
       Inl (ErrMaxTunnels (MaxTunnelsPerUser config)) \<longleftrightarrow>
     isPortAllowed config port \<and>
     MaxTunnelsPerUser config \<le> int (length (active_tunnels_of ms userID))"
    by (simp add: Service_CreateTunnel_cases)
  show "(\<exists>t. snd (Service_CreateTunnel config ms userID port tid sub now) = Inr t) \<longleftrightarrow>
     isPortAllowed config port \<and>
     int (length (active_tunnels_of ms userID)) < MaxTunnelsPerUser config \<and>
     DAList.lookup (tunnels ms) tid = None"
    by (auto simp add: Service_CreateTunnel_cases)
  show "ValidatePort port = None \<longrightarrow>
     snd (Handler_CreateTunnel config ms (Inr \<lparr>req_UserID = userID, req_LocalPort = port\<rparr>)
            tid sub now) =
       (case snd (Service_CreateTunnel config ms userID port tid sub now) of
          Inl err \<Rightarrow> (500, ErrorDetails ''Failed to create tunnel'' (error_message err))
        | Inr tunnel \<Rightarrow> (201, TunnelCreated tunnel))"
    by (simp add: Handler_CreateTunnel_reply StatusCreated_def StatusInternalServerError_def
        split: sum.splits)
  show "error_message (ErrMaxTunnels 2) = ''maximum number of tunnels (2) exceeded for user''"
    by (simp add: show_int_def show_nat.simps digit_char_def)
qed


theorem CreateTunnel_cap_witness:
  "snd (Service_CreateTunnel config_cap2
          (fst (create_run config_cap2 True NewMemoryStore [(alice_3000, ''t1''), (alice_3000, ''t2'')]))
          ''alice'' 3000 ''t3'' ''0a1b2c3d'' 0) = Inl (ErrMaxTunnels (MaxTunnelsPerUser config_cap2)) \<and>
   ValidatePort 3000 = None \<and>
   fst (snd (Handler_CreateTunnel config_cap2
          (fst (create_run config_cap2 True NewMemoryStore [(alice_3000, ''t1''), (alice_3000, ''t2'')]))
          (Inr \<lparr>req_UserID = ''alice'', req_LocalPort = 3000\<rparr>) ''t3'' ''0a1b2c3d'' 0)) = 500"
proof -
  let ?ms = "fst (create_run config_cap2 True NewMemoryStore [(alice_3000, ''t1''), (alice_3000, ''t2'')])"
  note T = CreateTunnel_cap [of config_cap2 ?ms "''alice''" 3000 "''t3''" "''0a1b2c3d''" 0]
  have a: "isPortAllowed config_cap2 3000 \<and>
     MaxTunnelsPerUser config_cap2 \<le> int (length (active_tunnels_of ?ms ''alice''))"
    by code_simp
  have v: "ValidatePort 3000 = None"
    by code_simp
  have 1: "snd (Service_CreateTunnel config_cap2 ?ms ''alice'' 3000 ''t3'' ''0a1b2c3d'' 0) =
       Inl (ErrMaxTunnels (MaxTunnelsPerUser config_cap2))"
    using T a by blast
  have 2: "snd (Handler_CreateTunnel config_cap2 ?ms (Inr \<lparr>req_UserID = ''alice'', req_LocalPort = 3000\<rparr>)
            ''t3'' ''0a1b2c3d'' 0) =
       (case snd (Service_CreateTunnel config_cap2 ?ms ''alice'' 3000 ''t3'' ''0a1b2c3d'' 0) of
          Inl err \<Rightarrow> (500, ErrorDetails ''Failed to create tunnel'' (error_message err))
        | Inr tunnel \<Rightarrow> (201, TunnelCreated tunnel))"
    using T v by blast
  have 3: "fst (snd (Handler_CreateTunnel config_cap2 ?ms (Inr \<lparr>req_UserID = ''alice'', req_LocalPort = 3000\<rparr>)
            ''t3'' ''0a1b2c3d'' 0)) = 500"
    unfolding 2 1 by simp
  from 1 v 3 show ?thesis
    by (intro conjI)
qed

text \<open>
  With a cap of two, three back-to-back creates for one user all answer 201, because
  the first two tunnels are still connecting; and when each tunnel has become active
  before the next call, the third answer is 500, not a 4xx.
\<close>

theorem CreateTunnel_cap_counterexample:
  "map fst (snd (create_run config_cap2 False NewMemoryStore
       [(alice_3000, ''t1''), (alice_3000, ''t2''), (alice_3000, ''t3'')])) = [201, 201, 201] \<and>
   snd (create_run config_cap2 True NewMemoryStore
       [(alice_3000, ''t1''), (alice_3000, ''t2''), (alice_3000, ''t3'')]) ! 2 =
     (500, ErrorDetails ''Failed to create tunnel''
             ''maximum number of tunnels (2) exceeded for user'')"
  by code_simp


lemma AList_update_fresh: "k \<notin> fst ` set al \<Longrightarrow> AList.update k v al = al @ [(k, v)]"
  by (induction al) auto

lemma lookup_None_fresh: "DAList.lookup al k = None \<Longrightarrow> k \<notin> fst ` set (DAList.impl_of al)"
  by (simp add: DAList.lookup.rep_eq map_of_eq_None_iff)

lemma in_store_iff:
  "t \<in> snd ` set (DAList.impl_of al) \<longleftrightarrow> (\<exists>k. DAList.lookup al k = Some t)"
  by (force simp: DAList.lookup.rep_eq)

lemma active_after_inactive_create:
  assumes "Status t \<noteq> TunnelStatusActive"
  shows "active_tunnels_of (fst (Store_CreateTunnel ms t)) userID = active_tunnels_of ms userID"
proof (cases "DAList.lookup (tunnels ms) (ID t)")
  case None
  then have "DAList.impl_of (DAList.update (ID t) t (tunnels ms)) =
      DAList.impl_of (tunnels ms) @ [(ID t, t)]"
    by (simp add: DAList.update.rep_eq AList_update_fresh lookup_None_fresh)
  with None assms show ?thesis
    by (simp add: Store_CreateTunnel_def active_tunnels_of_def)
next
  case (Some a)
  then show ?thesis
    by (simp add: Store_CreateTunnel_def)
qed

text \<open>
  Claim C10. The per-user listing (\<open>GetUserTunnels\<close>, which is \<open>GetTunnelsByUserID\<close>)
  returns exactly the stored tunnels of the user whose status is active, one per store
  entry. A tunnel in any other status is never listed: putting one into the store
  changes neither the listing nor whether a create call hits the per-user cap.
\<close>

theorem active_listing:
  "GetUserTunnels ms userID = Inr (active_tunnels_of ms userID) \<and>
   (\<forall>t. t \<in> set (active_tunnels_of ms userID) \<longleftrightarrow>
      (\<exists>k. DAList.lookup (tunnels ms) k = Some t) \<and> UserID t = userID \<and>
      Status t = TunnelStatusActive) \<and>
   (Status t \<noteq> TunnelStatusActive \<longrightarrow>
      GetUserTunnels (fst (Store_CreateTunnel ms t)) userID = GetUserTunnels ms userID \<and>
      (snd (Service_CreateTunnel config (fst (Store_CreateTunnel ms t)) userID port tid sub now) =
           Inl (ErrMaxTunnels (MaxTunnelsPerUser config)) \<longleftrightarrow>
       snd (Service_CreateTunnel config ms userID port tid sub now) =
           Inl (ErrMaxTunnels (MaxTunnelsPerUser config))))"
proof (intro conjI allI impI)
  show "GetUserTunnels ms userID = Inr (active_tunnels_of ms userID)"
    by (simp add: GetUserTunnels_def GetTunnelsByUserID_active)
  show "t \<in> set (active_tunnels_of ms userID) \<longleftrightarrow>
      (\<exists>k. DAList.lookup (tunnels ms) k = Some t) \<and> UserID t = userID \<and>
      Status t = TunnelStatusActive" for t
    using in_store_iff [of t "tunnels ms"] by (auto simp: active_tunnels_of_def)
  assume na: "Status t \<noteq> TunnelStatusActive"
  show "GetUserTunnels (fst (Store_CreateTunnel ms t)) userID = GetUserTunnels ms userID"
    by (simp add: GetUserTunnels_def GetTunnelsByUserID_active active_after_inactive_create [OF na])
  show "snd (Service_CreateTunnel config (fst (Store_CreateTunnel ms t)) userID port tid sub now) =
           Inl (ErrMaxTunnels (MaxTunnelsPerUser config)) \<longleftrightarrow>
       snd (Service_CreateTunnel config ms userID port tid sub now) =
           Inl (ErrMaxTunnels (MaxTunnelsPerUser config))"
    by (simp add: Service_CreateTunnel_cases active_after_inactive_create [OF na])
qed

text \<open>
  Claim C8. \<open>ValidatePort\<close> fails exactly for a port below 1, above 65535 or in the
  restricted set. A create request for port 22 is answered 400 with the text "port 22
  is restricted", one for port 70000 is answered 400, and port 3000 passes validation;
  with it the create is answered 201 whenever the service accepts it (the port is on
  the allow list, as it is in the default configuration, the user is below the cap and
  the drawn tunnel id is new).
\<close>

theorem ValidatePort_rule:
  "(ValidatePort port \<noteq> None \<longleftrightarrow>
      port < 1 \<or> 65535 < port \<or> port \<in> {22, 23, 25, 53, 80, 110, 143, 443, 993, 995}) \<and>
   snd (Handler_CreateTunnel config ms (Inr \<lparr>req_UserID = userID, req_LocalPort = 22\<rparr>) tid sub now) =
     (400, ErrorDetails ''Invalid port'' ''port 22 is restricted'') \<and>
   snd (Handler_CreateTunnel config ms (Inr \<lparr>req_UserID = userID, req_LocalPort = 70000\<rparr>) tid sub now) =
     (400, ErrorDetails ''Invalid port'' ''port must be between 1 and 65535'') \<and>
   ValidatePort 3000 = None \<and>
   isPortAllowed (GenerateTunnelConfig baseURL) 3000 \<and>
   (isPortAllowed config 3000 \<and>
    int (length (active_tunnels_of ms userID)) < MaxTunnelsPerUser config \<and>
    DAList.lookup (tunnels ms) tid = None \<longrightarrow>
    fst (snd (Handler_CreateTunnel config ms (Inr \<lparr>req_UserID = userID, req_LocalPort = 3000\<rparr>)
                tid sub now)) = 201)"
proof (intro conjI)
  show "ValidatePort port \<noteq> None \<longleftrightarrow>
      port < 1 \<or> 65535 < port \<or> port \<in> {22, 23, 25, 53, 80, 110, 143, 443, 993, 995}"
    by (auto simp: ValidatePort_None_iff restrictedPorts_def)
  have v22: "ValidatePort 22 = Some (ErrPortRestricted 22)"
    by (simp add: ValidatePort_def restrictedPorts_def)
  have v70000: "ValidatePort 70000 = Some ErrPortRange"
    by (simp add: ValidatePort_def)
  show v3000: "ValidatePort 3000 = None"
    by (simp add: ValidatePort_def restrictedPorts_def)
  show "snd (Handler_CreateTunnel config ms (Inr \<lparr>req_UserID = userID, req_LocalPort = 22\<rparr>) tid sub now) =
     (400, ErrorDetails ''Invalid port'' ''port 22 is restricted'')"
    by (simp add: Handler_CreateTunnel_reply v22 StatusBadRequest_def show_int_def
        show_nat.simps digit_char_def)
  show "snd (Handler_CreateTunnel config ms (Inr \<lparr>req_UserID = userID, req_LocalPort = 70000\<rparr>) tid sub now) =
     (400, ErrorDetails ''Invalid port'' ''port must be between 1 and 65535'')"
    by (simp add: Handler_CreateTunnel_reply v70000 StatusBadRequest_def)
  show "isPortAllowed (GenerateTunnelConfig baseURL) 3000"
    by (simp add: isPortAllowed_def GenerateTunnelConfig_def)
  show "isPortAllowed config 3000 \<and>
    int (length (active_tunnels_of ms userID)) < MaxTunnelsPerUser config \<and>
    DAList.lookup (tunnels ms) tid = None \<longrightarrow>
    fst (snd (Handler_CreateTunnel config ms (Inr \<lparr>req_UserID = userID, req_LocalPort = 3000\<rparr>)
                tid sub now)) = 201"
    by (simp add: Handler_CreateTunnel_status v3000 StatusCreated_def)
qed

theorem ValidatePort_rule_witness:
  "ValidatePort 22 \<noteq> None \<and> ValidatePort 70000 \<noteq> None \<and> ValidatePort 3000 = None \<and>
   fst (snd (Handler_CreateTunnel (GenerateTunnelConfig ''https://api.syntra.dev'') NewMemoryStore
          (Inr \<lparr>req_UserID = ''alice'', req_LocalPort = 3000\<rparr>) ''t1'' ''0a1b2c3d'' 0)) = 201"
proof -
  let ?c = "GenerateTunnelConfig ''https://api.syntra.dev''"
  note T = ValidatePort_rule [of _ ?c NewMemoryStore "''alice''" "''t1''" "''0a1b2c3d''" 0 "''https://api.syntra.dev''"]
  have h: "int (length (active_tunnels_of NewMemoryStore ''alice'')) < MaxTunnelsPerUser ?c \<and>
    DAList.lookup (tunnels NewMemoryStore) ''t1'' = None"
    by code_simp
  have "ValidatePort 22 \<noteq> None" "ValidatePort 70000 \<noteq> None"
    using T [of 22] T [of 70000] by simp_all
  moreover have "ValidatePort 3000 = None"
    using T [of 0] by blast
  moreover have "fst (snd (Handler_CreateTunnel ?c NewMemoryStore
          (Inr \<lparr>req_UserID = ''alice'', req_LocalPort = 3000\<rparr>) ''t1'' ''0a1b2c3d'' 0)) = 201"
    using T [of 0] h by blast
  ultimately show ?thesis
    by blast
qed

theorem active_listing_witness:
  "GetUserTunnels
     (fst (Store_CreateTunnel
        (fst (create_run config_cap2 True NewMemoryStore [(alice_3000, ''t1'')]))
        \<lparr>ID = ''t2'', UserID = ''alice'', LocalPort = 3000, PublicURL = ''u'',
         Status = TunnelStatusConnecting, CreatedAt = 0, LastActivity = 0, ExpiresAt = hour,
         Analytics = None\<rparr>)) ''alice'' =
   GetUserTunnels (fst (create_run config_cap2 True NewMemoryStore [(alice_3000, ''t1'')])) ''alice'' \<and>
   length (active_tunnels_of
     (fst (create_run config_cap2 True NewMemoryStore [(alice_3000, ''t1'')])) ''alice'') = 1"
proof -
  let ?ms = "fst (create_run config_cap2 True NewMemoryStore [(alice_3000, ''t1'')])"
  let ?t = "\<lparr>ID = ''t2'', UserID = ''alice'', LocalPort = 3000, PublicURL = ''u'',
         Status = TunnelStatusConnecting, CreatedAt = 0, LastActivity = 0, ExpiresAt = hour,
         Analytics = None\<rparr>"
  have h: "Status ?t \<noteq> TunnelStatusActive"
    by simp
  have "GetUserTunnels (fst (Store_CreateTunnel ?ms ?t)) ''alice'' = GetUserTunnels ?ms ''alice''"
    using active_listing [of ?ms "''alice''" ?t config_cap2 3000 "''t3''" "''0a1b2c3d''" 0] h
    by blast
  moreover have "length (active_tunnels_of ?ms ''alice'') = 1"
    by code_simp
  ultimately show ?thesis
    by blast
qed


section \<open>Properties of the public edge\<close>

lemma LastIndex_lower: "-1 \<le> LastIndex s c"
  by (induction s) (auto simp: Let_def)

lemma LastIndex_none: "LastIndex s c = -1 \<longleftrightarrow> c \<notin> set s"
proof (induction s)
  case Nil
  show ?case by simp
next
  case (Cons x xs)
  have "LastIndex xs c + 1 \<noteq> -1"
    using LastIndex_lower [of xs c] by arith
  with Cons show ?case
    by (auto simp: Let_def)
qed

lemma LastIndex_nonneg: "c \<in> set s \<Longrightarrow> 0 \<le> LastIndex s c"
  by (induction s) (auto simp: LastIndex_none Let_def)

lemma LastIndex_split:
  "c \<in> set s \<Longrightarrow> \<exists>post. s = take (nat (LastIndex s c)) s @ c # post \<and> c \<notin> set post"
proof (induction s)
  case Nil
  then show ?case by simp
next
  case (Cons x xs)
  show ?case
  proof (cases "c \<in> set xs")
    case True
    from Cons.IH [OF True] obtain post where
      p: "xs = take (nat (LastIndex xs c)) xs @ c # post" "c \<notin> set post"
      by blast
    have n: "0 \<le> LastIndex xs c" "LastIndex xs c \<noteq> -1"
      using True LastIndex_nonneg [of c xs] LastIndex_none [of xs c] by auto
    have "nat (LastIndex xs c + 1) = Suc (nat (LastIndex xs c))"
      using n by simp
    then have "x # xs = take (nat (LastIndex (x # xs) c)) (x # xs) @ c # post"
      using n p(1) by (simp add: Let_def)
    with p(2) show ?thesis
      by blast
  next
    case False
    with Cons.prems have "x = c"
      by simp
    with False show ?thesis
      by (simp add: LastIndex_none Let_def)
  qed
qed

lemma strip_port_eq:
  "strip_port host =
     (if LastIndex host CHR '':'' \<noteq> -1 then take (nat (LastIndex host CHR '':'')) host else host)"
proof (cases "CHR '':'' \<in> set host")
  case False
  then show ?thesis
    by (simp add: strip_port_def LastIndex_none)
next
  case True
  from LastIndex_split [OF True] obtain post where
    p: "host = take (nat (LastIndex host CHR '':'')) host @ CHR '':'' # post"
      "CHR '':'' \<notin> set post"
    by blast
  define pre where "pre = take (nat (LastIndex host CHR '':'')) host"
  have h: "host = pre @ CHR '':'' # post"
    using p(1) pre_def by simp
  have "dropWhile (\<lambda>c. c \<noteq> CHR '':'') (rev post @ CHR '':'' # rev pre) = CHR '':'' # rev pre"
  proof -
    have "dropWhile (\<lambda>c. c \<noteq> CHR '':'') (rev post @ CHR '':'' # rev pre) =
        dropWhile (\<lambda>c. c \<noteq> CHR '':'') (CHR '':'' # rev pre)"
      by (rule dropWhile_append2) (use p(2) in auto)
    then show ?thesis
      by simp
  qed
  then have "rev (tl (dropWhile (\<lambda>c. c \<noteq> CHR '':'') (rev host))) = pre"
    by (subst h) simp
  with True show ?thesis
    by (simp add: strip_port_def LastIndex_none pre_def)
qed

lemma HasSuffix_iff: "HasSuffix s sfx \<longleftrightarrow> (\<exists>pre. s = pre @ sfx)"
proof
  assume "HasSuffix s sfx"
  then have "s = take (length s - length sfx) s @ sfx"
    by (metis HasSuffix_def append_take_drop_id)
  then show "\<exists>pre. s = pre @ sfx" ..
next
  assume "\<exists>pre. s = pre @ sfx"
  then show "HasSuffix s sfx"
    by (auto simp: HasSuffix_def)
qed

lemma TrimSuffix_append: "TrimSuffix (pre @ sfx) sfx = pre"
  by (simp add: TrimSuffix_def HasSuffix_def)

lemma extractSubdomain_eq:
  "extractSubdomain baseDomain host =
     (if HasSuffix (strip_port host) (''.'' @ baseDomain)
      then (let subdomain = TrimSuffix (strip_port host) (''.'' @ baseDomain)
            in if subdomain = [] \<or> subdomain = baseDomain then [] else subdomain)
      else [])"
  by (simp add: extractSubdomain_def strip_port_eq Let_def)

text \<open>
  Claim C7, as amended. With the part of the host before its last colon as the host
  without port: when that remainder is a label followed by a dot and the base domain,
  \<open>extractSubdomain\<close> returns the label if the label is neither empty nor equal to the
  base domain, and the empty string if it is either; for a remainder that does not end
  with the dot and the base domain (the bare base domain among them) it returns the
  empty string; a non-empty result is always such a label. On the empty result the
  proxy handler answers 400 and leaves the manager as it is.
\<close>

theorem extractSubdomain_rule:
  "(strip_port host = label @ ''.'' @ baseDomain \<and> label \<noteq> [] \<and> label \<noteq> baseDomain \<longrightarrow>
      extractSubdomain baseDomain host = label) \<and>
   (strip_port host = baseDomain @ ''.'' @ baseDomain \<longrightarrow> extractSubdomain baseDomain host = []) \<and>
   (strip_port host = ''.'' @ baseDomain \<longrightarrow> extractSubdomain baseDomain host = []) \<and>
   ((\<nexists>label. strip_port host = label @ ''.'' @ baseDomain) \<longrightarrow>
      extractSubdomain baseDomain host = []) \<and>
   (strip_port host = baseDomain \<longrightarrow> extractSubdomain baseDomain host = []) \<and>
   (extractSubdomain baseDomain host \<noteq> [] \<longrightarrow>
      strip_port host = extractSubdomain baseDomain host @ ''.'' @ baseDomain) \<and>
   (extractSubdomain baseDomain (ctx_Host c) = [] \<longrightarrow>
      ProxyHandler newRequest canon baseDomain tm c requestID env responseTime =
        (tm, reply_error 400 ''Invalid subdomain'' None))"
proof (intro conjI impI)
  assume "extractSubdomain baseDomain (ctx_Host c) = []"
  then show "ProxyHandler newRequest canon baseDomain tm c requestID env responseTime =
        (tm, reply_error 400 ''Invalid subdomain'' None)"
    by (simp add: ProxyHandler_def StatusBadRequest_def)
next
  assume "strip_port host = label @ ''.'' @ baseDomain \<and> label \<noteq> [] \<and> label \<noteq> baseDomain"
  then show "extractSubdomain baseDomain host = label"
    using TrimSuffix_append [of label "''.'' @ baseDomain"]
    by (simp add: extractSubdomain_eq HasSuffix_iff)
next
  assume "strip_port host = baseDomain @ ''.'' @ baseDomain"
  then show "extractSubdomain baseDomain host = []"
    using TrimSuffix_append [of baseDomain "''.'' @ baseDomain"]
    by (simp add: extractSubdomain_eq)
next
  assume "strip_port host = ''.'' @ baseDomain"
  then show "extractSubdomain baseDomain host = []"
    using TrimSuffix_append [of "[]" "''.'' @ baseDomain"]
    by (simp add: extractSubdomain_eq)
next
  assume "\<nexists>label. strip_port host = label @ ''.'' @ baseDomain"
  then show "extractSubdomain baseDomain host = []"
    by (simp add: extractSubdomain_eq HasSuffix_iff)
next
  assume "strip_port host = baseDomain"
  then have "\<not> HasSuffix (strip_port host) (''.'' @ baseDomain)"
    by (simp add: HasSuffix_def)
  then show "extractSubdomain baseDomain host = []"
    by (simp add: extractSubdomain_eq)
next
  assume ne: "extractSubdomain baseDomain host \<noteq> []"
  then have hs: "HasSuffix (strip_port host) (''.'' @ baseDomain)"
    by (auto simp: extractSubdomain_eq split: if_splits)
  then obtain pre where pre: "strip_port host = pre @ ''.'' @ baseDomain"
    by (auto simp: HasSuffix_iff)
  have "extractSubdomain baseDomain host = pre"
    using ne hs TrimSuffix_append [of pre "''.'' @ baseDomain"]
    by (auto simp: extractSubdomain_eq pre Let_def split: if_splits)
  with pre show "strip_port host = extractSubdomain baseDomain host @ ''.'' @ baseDomain"
    by simp
qed

theorem extractSubdomain_rule_witness:
  "extractSubdomain ''example.dev'' ''alice-abcd1234.example.dev:8080'' = ''alice-abcd1234'' \<and>
   extractSubdomain ''example.dev'' ''example.dev'' = [] \<and>
   fiber_Status (snd (ProxyHandler example_newRequest id ''example.dev'' alice_session
      (ping_ctx\<lparr>ctx_Host := ''example.dev''\<rparr>) ''r1'' [] 0)) = 400"
proof -
  have s1: "strip_port ''alice-abcd1234.example.dev:8080'' = ''alice-abcd1234'' @ ''.'' @ ''example.dev'' \<and>
      ''alice-abcd1234'' \<noteq> [] \<and> ''alice-abcd1234'' \<noteq> ''example.dev''"
    by (simp add: strip_port_def)
  have s2: "strip_port ''example.dev'' = ''example.dev''"
    by (simp add: strip_port_def)
  note A = extractSubdomain_rule [of "''alice-abcd1234.example.dev:8080''" "''alice-abcd1234''"
      "''example.dev''"]
  have 1: "extractSubdomain ''example.dev'' ''alice-abcd1234.example.dev:8080'' = ''alice-abcd1234''"
    by (rule mp [OF A [THEN conjunct1] s1])
  note T = extractSubdomain_rule [of "''example.dev''" "[]" "''example.dev''"
      "ping_ctx\<lparr>ctx_Host := ''example.dev''\<rparr>" example_newRequest id alice_session "''r1''" "[]" 0]
  have 2: "extractSubdomain ''example.dev'' ''example.dev'' = []"
    by (rule mp [OF T [THEN conjunct2, THEN conjunct2, THEN conjunct2, THEN conjunct2,
            THEN conjunct1] s2])
  have h: "extractSubdomain ''example.dev'' (ctx_Host (ping_ctx\<lparr>ctx_Host := ''example.dev''\<rparr>)) = []"
  proof -
    have "ctx_Host (ping_ctx\<lparr>ctx_Host := ''example.dev''\<rparr>) = ''example.dev''"
      by simp
    then show ?thesis
      by (simp only: 2)
  qed
  have "ProxyHandler example_newRequest id ''example.dev'' alice_session
      (ping_ctx\<lparr>ctx_Host := ''example.dev''\<rparr>) ''r1'' [] 0 =
        (alice_session, reply_error 400 ''Invalid subdomain'' None)"
    by (rule mp [OF T [THEN conjunct2, THEN conjunct2, THEN conjunct2, THEN conjunct2,
            THEN conjunct2, THEN conjunct2] h])
  then have 3: "fiber_Status (snd (ProxyHandler example_newRequest id ''example.dev'' alice_session
      (ping_ctx\<lparr>ctx_Host := ''example.dev''\<rparr>) ''r1'' [] 0)) = 400"
    by (simp add: reply_error_def)
  from 1 2 3 show ?thesis
    by (intro conjI)
qed

text \<open>
  The claim as stated fails where the label equals the base domain: the remainder ends
  with the dot and the base domain and the label is not empty, yet the result is empty.
\<close>

theorem extractSubdomain_counterexample:
  "strip_port ''example.dev.example.dev:443'' = ''example.dev'' @ ''.'' @ ''example.dev'' \<and>
   ''example.dev'' \<noteq> [] \<and>
   extractSubdomain ''example.dev'' ''example.dev.example.dev:443'' = []"
  by code_simp



lemma buildHTTPResponse_headers_keeps:
  "resp_Body (buildHTTPResponse_headers canon hs resp) = resp_Body resp \<and>
   StatusCode (buildHTTPResponse_headers canon hs resp) = StatusCode resp"
  by (induction hs arbitrary: resp) auto

lemma copy_values_keeps:
  "fiber_Body (copy_values key vals c) = fiber_Body c \<and>
   fiber_Status (copy_values key vals c) = fiber_Status c"
  by (induction vals arbitrary: c) auto

lemma copy_headers_keeps:
  "fiber_Body (copy_headers hs c) = fiber_Body c \<and>
   fiber_Status (copy_headers hs c) = fiber_Status c"
  by (induction hs arbitrary: c) (auto simp: copy_values_keeps)

lemma buildHTTPResponse_body: "resp_Body (buildHTTPResponse canon msg) = None"
  by (simp add: buildHTTPResponse_def Let_def buildHTTPResponse_headers_keeps
      split: option.splits json.splits)

lemma buildHTTPResponse_status:
  "StatusCode (buildHTTPResponse canon msg) =
     (case Data msg ''status_code'' of Some (JNumber statusCode) \<Rightarrow> statusCode | _ \<Rightarrow> 200)"
  by (simp add: buildHTTPResponse_def Let_def buildHTTPResponse_headers_keeps
      split: option.splits json.splits)

text \<open>
  Claim C1. The status code of the response comes from the frame's \<open>status_code\<close>
  field, 200 when it is absent or no number, and is the status the handler sets on the
  reply to the public client. The body does not get there: \<open>buildHTTPResponse\<close> never
  sets a body, so for every frame the client gets an empty body. For the agent that echoes the request body \<open>ping\<close> with status 200, the
  client receives status 200, the timing header and no body.
\<close>

theorem response_body_dropped:
  "StatusCode (buildHTTPResponse canon msg) =
     (case Data msg ''status_code'' of Some (JNumber statusCode) \<Rightarrow> statusCode | _ \<Rightarrow> 200) \<and>
   resp_Body (buildHTTPResponse canon msg) = None \<and>
   fiber_Status (httpResponseToFiber new_fiber_Response (buildHTTPResponse canon msg) responseTime) =
     StatusCode (buildHTTPResponse canon msg) \<and>
   fiber_Body (httpResponseToFiber new_fiber_Response (buildHTTPResponse canon msg) responseTime) =
     RawBody '''' \<and>
   Data (echo_response ''r1'' ''ping'') ''body'' = Some (JString ''ping'') \<and>
   snd (ProxyHandler example_newRequest id ''syntra.dev'' alice_session ping_ctx ''r1''
          [AgentFrame 0 second ''u1'' (echo_response ''r1'' ''ping'')] (5 * 1000000)) =
     \<lparr>fiber_Status = 200,
      fiber_Headers = DAList.update ''X-Tunnel-Response-Time'' ''5ms'' DAList.empty,
      fiber_Body = RawBody ''''\<rparr>"
proof (intro conjI)
  show "StatusCode (buildHTTPResponse canon msg) =
     (case Data msg ''status_code'' of Some (JNumber statusCode) \<Rightarrow> statusCode | _ \<Rightarrow> 200)"
    by (rule buildHTTPResponse_status)
  show "resp_Body (buildHTTPResponse canon msg) = None"
    by (rule buildHTTPResponse_body)
  show "fiber_Status (httpResponseToFiber new_fiber_Response (buildHTTPResponse canon msg) responseTime) =
     StatusCode (buildHTTPResponse canon msg)"
    by (simp add: httpResponseToFiber_def Let_def buildHTTPResponse_body copy_headers_keeps)
  show "fiber_Body (httpResponseToFiber new_fiber_Response (buildHTTPResponse canon msg) responseTime) =
     RawBody ''''"
    by (simp add: httpResponseToFiber_def Let_def buildHTTPResponse_body copy_headers_keeps
        new_fiber_Response_def)
  show "Data (echo_response ''r1'' ''ping'') ''body'' = Some (JString ''ping'')"
    by (simp add: echo_response_def)
  show "snd (ProxyHandler example_newRequest id ''syntra.dev'' alice_session ping_ctx ''r1''
          [AgentFrame 0 second ''u1'' (echo_response ''r1'' ''ping'')] (5 * 1000000)) =
     \<lparr>fiber_Status = 200,
      fiber_Headers = DAList.update ''X-Tunnel-Response-Time'' ''5ms'' DAList.empty,
      fiber_Body = RawBody ''''\<rparr>"
    by code_simp
qed



section \<open>Properties of the tunnel manager\<close>

lemma WriteJSON_fields:
  "conns (fst (WriteJSON tm p msg)) = conns tm"
  "chans (fst (WriteJSON tm p msg)) = chans tm"
  "next_addr (fst (WriteJSON tm p msg)) = next_addr tm"
  "connections (fst (WriteJSON tm p msg)) = connections tm"
  "subdomains (fst (WriteJSON tm p msg)) = subdomains tm"
  "store (fst (WriteJSON tm p msg)) = store tm"
  by (simp_all add: WriteJSON_def split: option.splits)

lemma WriteJSON_Some:
  "conns tm p = Some conn \<Longrightarrow>
   WriteJSON tm p msg =
     (if Conn_writable conn then (tm\<lparr>trace := trace tm @ [FrameWritten p msg]\<rparr>, True)
      else (tm\<lparr>trace := trace tm @ [WriteFailed p msg]\<rparr>, False))"
  by (simp add: WriteJSON_def)

lemma ForwardRequest_send_found:
  assumes "subdomains tm subdomain = Some p" "conns tm p = Some conn"
    "read_body req = Inr body"
  shows "ForwardRequest_send tm subdomain req requestID =
     (if Conn_writable conn
      then (tm\<lparr>chans := (chans tm)(next_addr tm \<mapsto> []), next_addr := Suc (next_addr tm),
               conns := (conns tm)(p \<mapsto> conn\<lparr>pendingReqs := (pendingReqs conn)(requestID \<mapsto> next_addr tm)\<rparr>),
               trace := trace tm @ [SlotInserted p requestID,
                 FrameWritten p (request_frame req requestID body)]\<rparr>,
            Inr (p, next_addr tm))
      else (tm\<lparr>chans := (chans tm)(next_addr tm \<mapsto> []), next_addr := Suc (next_addr tm),
               conns := (conns tm)(p \<mapsto> conn\<lparr>pendingReqs := (pendingReqs conn)(requestID := None)\<rparr>),
               trace := trace tm @ [SlotInserted p requestID,
                 WriteFailed p (request_frame req requestID body), SlotRemoved p requestID]\<rparr>,
            Inl ErrSendFailed))"
  using assms
  by (simp add: ForwardRequest_send_def Let_def pending_insert_def pending_delete_def WriteJSON_def)


text \<open>
  Claim C2. For a request forwarded to a registered connection under a correlation id
  that the pending table does not hold yet, the send path first inserts the slot and
  then writes the request frame: the trace grows by the insertion followed by the
  write. When the write succeeds the caller gets the channel and the table holds the
  slot. When the write fails the slot is removed again, the call returns the send
  error, and every pending table is as it was before the call.
\<close>

theorem slot_inserted_before_write:
  assumes "subdomains tm subdomain = Some p" and "conns tm p = Some conn"
    and "read_body req = Inr body" and "pendingReqs conn requestID = None"
  shows "trace (fst (ForwardRequest_send tm subdomain req requestID)) =
           trace tm @ SlotInserted p requestID #
             (if Conn_writable conn then [FrameWritten p (request_frame req requestID body)]
              else [WriteFailed p (request_frame req requestID body), SlotRemoved p requestID]) \<and>
         (Conn_writable conn \<longrightarrow>
            snd (ForwardRequest_send tm subdomain req requestID) = Inr (p, next_addr tm) \<and>
            pending_of (fst (ForwardRequest_send tm subdomain req requestID)) p =
              Some ((pendingReqs conn)(requestID \<mapsto> next_addr tm))) \<and>
         (\<not> Conn_writable conn \<longrightarrow>
            snd (ForwardRequest_send tm subdomain req requestID) = Inl ErrSendFailed \<and>
            snd (ForwardRequest canon tm subdomain req requestID env) = Inl ErrSendFailed \<and>
            fst (ForwardRequest canon tm subdomain req requestID env) =
              fst (ForwardRequest_send tm subdomain req requestID) \<and>
            (\<forall>q. pending_of (fst (ForwardRequest canon tm subdomain req requestID env)) q =
                 pending_of tm q))"
proof -
  note S = ForwardRequest_send_found [OF assms(1-3), of requestID]
  have upd: "(pendingReqs conn)(requestID := None) = pendingReqs conn"
    using assms(4) by (rule fun_upd_idem)
  show ?thesis
  proof (cases "Conn_writable conn")
    case True
    then show ?thesis
      by (simp add: S pending_of_def)
  next
    case False
    then have F: "ForwardRequest canon tm subdomain req requestID env =
        (fst (ForwardRequest_send tm subdomain req requestID), Inl ErrSendFailed)"
      by (simp add: ForwardRequest_def S)
    from False show ?thesis
      by (simp add: F) (simp add: S pending_of_def upd assms(2))
  qed
qed


lemma alice_session_conn:
  "conns alice_session 0 = Some alice_conn \<and>
   subdomains alice_session ''alice-abcd1234'' = Some 0 \<and>
   DAList.lookup (connections alice_session) ''c1'' = Some 0 \<and>
   next_addr alice_session = 1 \<and> chans alice_session = Map.empty"
  by (simp add: alice_session_def run_ops_def HandleWebSocket_connect_def Let_def
      NewTunnelManager_def registerConnection_def WriteJSON_def generateSubdomain_def
      alice_conn_def)

lemma ping_body: "read_body ping_request = Inr ''ping''"
  by (simp add: read_body_def ping_request_def)

lemma fiber_ping: "fiberToHTTPRequest example_newRequest id ping_ctx = Some ping_request"
  by (simp add: fiberToHTTPRequest_def example_newRequest_def ping_ctx_def ping_request_def)


lemma alice_broken:
  "conns (run_env alice_session [SocketBreaks 0]) 0 = Some (alice_conn\<lparr>Conn_writable := False\<rparr>) \<and>
   subdomains (run_env alice_session [SocketBreaks 0]) ''alice-abcd1234'' = Some 0"
  by (simp add: run_env_def alice_session_conn)

theorem slot_inserted_before_write_witness:
  "trace (fst (ForwardRequest_send alice_session ''alice-abcd1234'' ping_request ''r1'')) =
     trace alice_session @
       [SlotInserted 0 ''r1'', FrameWritten 0 (request_frame ping_request ''r1'' ''ping'')] \<and>
   snd (ForwardRequest id (run_env alice_session [SocketBreaks 0]) ''alice-abcd1234''
          ping_request ''r1'' []) = Inl ErrSendFailed \<and>
   pending_of (fst (ForwardRequest id (run_env alice_session [SocketBreaks 0]) ''alice-abcd1234''
          ping_request ''r1'' [])) 0 =
     pending_of (run_env alice_session [SocketBreaks 0]) 0"
proof -
  have fresh: "pendingReqs alice_conn ''r1'' = None"
    "pendingReqs (alice_conn\<lparr>Conn_writable := False\<rparr>) ''r1'' = None"
    by (simp_all add: alice_conn_def)
  have w: "Conn_writable alice_conn" "\<not> Conn_writable (alice_conn\<lparr>Conn_writable := False\<rparr>)"
    by (simp_all add: alice_conn_def)
  note A = slot_inserted_before_write [OF alice_session_conn [THEN conjunct2, THEN conjunct1]
      alice_session_conn [THEN conjunct1] ping_body fresh(1), of id "[]"]
  note B = slot_inserted_before_write [OF alice_broken [THEN conjunct2]
      alice_broken [THEN conjunct1] ping_body fresh(2), of id "[]"]
  have 1: "trace (fst (ForwardRequest_send alice_session ''alice-abcd1234'' ping_request ''r1'')) =
     trace alice_session @
       [SlotInserted 0 ''r1'', FrameWritten 0 (request_frame ping_request ''r1'' ''ping'')]"
    using A [THEN conjunct1] w(1) by simp
  from B [THEN conjunct2, THEN conjunct2] w(2)
  have 2: "snd (ForwardRequest id (run_env alice_session [SocketBreaks 0]) ''alice-abcd1234''
          ping_request ''r1'' []) = Inl ErrSendFailed"
    and 3: "pending_of (fst (ForwardRequest id (run_env alice_session [SocketBreaks 0])
          ''alice-abcd1234'' ping_request ''r1'' [])) 0 =
        pending_of (run_env alice_session [SocketBreaks 0]) 0"
    by blast+
  from 1 2 3 show ?thesis
    by (intro conjI)
qed


lemma cancel_fields:
  "chans (cancel tm p) = chans tm" "trace (cancel tm p) = trace tm"
  "next_addr (cancel tm p) = next_addr tm" "connections (cancel tm p) = connections tm"
  "subdomains (cancel tm p) = subdomains tm" "store (cancel tm p) = store tm"
  "pending_of (cancel tm p) q = pending_of tm q"
  "conn_keys (cancel tm p) q = conn_keys tm q"
  by (simp_all add: cancel_def pending_of_def conn_keys_def split: option.splits)

lemma unregisterConnection_keeps:
  "chans (unregisterConnection tm connID now) = chans tm"
  "trace (unregisterConnection tm connID now) = trace tm"
  "next_addr (unregisterConnection tm connID now) = next_addr tm"
  "pending_of (unregisterConnection tm connID now) q = pending_of tm q"
  "conn_keys (unregisterConnection tm connID now) q = conn_keys tm q"
  by (simp_all add: unregisterConnection_def Let_def cancel_fields pending_of_def conn_keys_def
      cancel_def split: option.splits)

lemma cleanup_entry_keeps:
  "chans (cleanup_entry connID p now tm) = chans tm"
  "trace (cleanup_entry connID p now tm) = trace tm"
  "next_addr (cleanup_entry connID p now tm) = next_addr tm"
  "store (cleanup_entry connID p now tm) = store tm"
  "pending_of (cleanup_entry connID p now tm) q = pending_of tm q"
  "conn_keys (cleanup_entry connID p now tm) q = conn_keys tm q"
  by (simp_all add: cleanup_entry_def Let_def cancel_def pending_of_def conn_keys_def
      split: option.splits)

lemma cleanup_loop_keeps:
  "chans (cleanup_loop es now tm) = chans tm \<and>
   trace (cleanup_loop es now tm) = trace tm \<and>
   next_addr (cleanup_loop es now tm) = next_addr tm \<and>
   store (cleanup_loop es now tm) = store tm \<and>
   pending_of (cleanup_loop es now tm) q = pending_of tm q \<and>
   conn_keys (cleanup_loop es now tm) q = conn_keys tm q"
  by (induction es now tm rule: cleanup_loop.induct) (simp_all add: cleanup_entry_keeps)

lemma ForwardRequest_wait_empty:
  "chans tm ch = Some [] \<Longrightarrow>
   ForwardRequest_wait canon tm p requestID ch = (pending_delete tm p requestID, Inl ErrRequestTimeout)"
  by (simp add: ForwardRequest_wait_def)

lemma pending_delete_fields:
  "chans (pending_delete tm p r) = chans tm"
  "next_addr (pending_delete tm p r) = next_addr tm"
  "connections (pending_delete tm p r) = connections tm"
  "subdomains (pending_delete tm p r) = subdomains tm"
  "store (pending_delete tm p r) = store tm"
  "conn_keys (pending_delete tm p r) q = conn_keys tm q"
  by (simp_all add: pending_delete_def conn_keys_def split: option.splits)

lemma pending_delete_pending:
  "conns tm p = Some conn \<Longrightarrow>
   pending_of (pending_delete tm p r) p = Some ((pendingReqs conn)(r := None))"
  by (simp add: pending_delete_def pending_of_def)

lemma lookup_delete:
  "DAList.lookup (DAList.delete k al) k' = (if k = k' then None else DAList.lookup al k')"
  by (simp add: DAList.lookup.rep_eq DAList.delete.rep_eq delete_conv)

lemma cleanup_entry_stale_eq:
  "conns tm p = Some conn \<Longrightarrow> now - LastPing conn > 2 * minute \<Longrightarrow>
   cleanup_entry connID p now tm =
     tm\<lparr>conns := (conns tm)(p \<mapsto> conn\<lparr>cancelled := True\<rparr>),
        connections := DAList.delete connID (connections tm),
        subdomains := (subdomains tm)(Subdomain conn := None)\<rparr>"
  by (simp add: cleanup_entry_def Let_def cancel_def)

lemma cleanup_entry_fresh_eq:
  "conns tm p = Some conn \<Longrightarrow> \<not> now - LastPing conn > 2 * minute \<Longrightarrow>
   cleanup_entry connID p now tm = tm"
  by (simp add: cleanup_entry_def)

lemma cleanup_entry_None_eq:
  "conns tm p = None \<Longrightarrow> cleanup_entry connID p now tm = tm"
  by (simp add: cleanup_entry_def)

lemma cleanup_entry_cases:
  obtains (stale) conn where "conns tm p = Some conn" "now - LastPing conn > 2 * minute"
      "cleanup_entry connID p now tm =
         tm\<lparr>conns := (conns tm)(p \<mapsto> conn\<lparr>cancelled := True\<rparr>),
            connections := DAList.delete connID (connections tm),
            subdomains := (subdomains tm)(Subdomain conn := None)\<rparr>"
    | (skip) "cleanup_entry connID p now tm = tm"
proof (cases "conns tm p")
  case None
  then show ?thesis
    using skip by (simp add: cleanup_entry_None_eq)
next
  case (Some conn)
  show ?thesis
  proof (cases "now - LastPing conn > 2 * minute")
    case True
    with Some show ?thesis
      using stale cleanup_entry_stale_eq by blast
  next
    case False
    with Some show ?thesis
      using skip cleanup_entry_fresh_eq by blast
  qed
qed

lemma cleanup_entry_gone_id:
  "DAList.lookup (connections tm) k = None \<Longrightarrow>
     DAList.lookup (connections (cleanup_entry connID p now tm)) k = None"
  by (cases rule: cleanup_entry_cases [of tm p now connID]) (simp_all add: lookup_delete)

lemma cleanup_entry_gone_sub:
  "subdomains tm sd = None \<Longrightarrow> subdomains (cleanup_entry connID p now tm) sd = None"
  by (cases rule: cleanup_entry_cases [of tm p now connID]) simp_all

lemma cleanup_entry_cancelled:
  "map_option cancelled (conns tm q) = Some True \<Longrightarrow>
     map_option cancelled (conns (cleanup_entry connID p now tm) q) = Some True"
  by (cases rule: cleanup_entry_cases [of tm p now connID]) simp_all

lemma cleanup_entry_ping:
  "map_option (\<lambda>c. (LastPing c, Subdomain c)) (conns (cleanup_entry connID p now tm) q) =
     map_option (\<lambda>c. (LastPing c, Subdomain c)) (conns tm q)"
  by (cases rule: cleanup_entry_cases [of tm p now connID]) simp_all

lemma cleanup_entry_stale:
  assumes "map_option (\<lambda>c. (LastPing c, Subdomain c)) (conns tm p) = Some (lp, sd)"
    and "now - lp > 2 * minute"
  shows "DAList.lookup (connections (cleanup_entry connID p now tm)) connID = None"
    "subdomains (cleanup_entry connID p now tm) sd = None"
    "map_option cancelled (conns (cleanup_entry connID p now tm) p) = Some True"
proof -
  from assms(1) obtain conn where c: "conns tm p = Some conn" "LastPing conn = lp"
      "Subdomain conn = sd"
    by (cases "conns tm p") simp_all
  note e = cleanup_entry_stale_eq [OF c(1), of now connID]
  show "DAList.lookup (connections (cleanup_entry connID p now tm)) connID = None"
    "subdomains (cleanup_entry connID p now tm) sd = None"
    "map_option cancelled (conns (cleanup_entry connID p now tm) p) = Some True"
    using assms(2) c(2,3) by (simp_all add: e lookup_delete)
qed

lemma cleanup_entry_fresh:
  assumes "conns tm p = Some conn" and "\<not> now - LastPing conn > 2 * minute"
  shows "conns (cleanup_entry k q now tm) p = Some conn"
    "k \<noteq> connID \<or> q = p \<Longrightarrow>
       DAList.lookup (connections (cleanup_entry k q now tm)) connID =
         DAList.lookup (connections tm) connID"
proof -
  show "conns (cleanup_entry k q now tm) p = Some conn"
    using assms by (cases rule: cleanup_entry_cases [of tm q now k]) auto
  show "DAList.lookup (connections (cleanup_entry k q now tm)) connID =
         DAList.lookup (connections tm) connID" if "k \<noteq> connID \<or> q = p"
    using assms that by (cases rule: cleanup_entry_cases [of tm q now k]) (auto simp: lookup_delete)
qed

lemma cleanup_loop_gone_id:
  "DAList.lookup (connections tm) k = None \<Longrightarrow>
     DAList.lookup (connections (cleanup_loop es now tm)) k = None"
proof (induction es now tm rule: cleanup_loop.induct)
  case (1 now tm)
  then show ?case by simp
next
  case (2 connID p rest now tm)
  from cleanup_entry_gone_id [OF 2(2)] show ?case
    unfolding cleanup_loop.simps by (rule 2(1))
qed

lemma cleanup_loop_gone_sub:
  "subdomains tm sd = None \<Longrightarrow> subdomains (cleanup_loop es now tm) sd = None"
proof (induction es now tm rule: cleanup_loop.induct)
  case (1 now tm)
  then show ?case by simp
next
  case (2 connID p rest now tm)
  from cleanup_entry_gone_sub [OF 2(2)] show ?case
    unfolding cleanup_loop.simps by (rule 2(1))
qed

lemma cleanup_loop_cancelled:
  "map_option cancelled (conns tm q) = Some True \<Longrightarrow>
     map_option cancelled (conns (cleanup_loop es now tm) q) = Some True"
proof (induction es now tm rule: cleanup_loop.induct)
  case (1 now tm)
  then show ?case by simp
next
  case (2 connID p rest now tm)
  from cleanup_entry_cancelled [OF 2(2)] show ?case
    unfolding cleanup_loop.simps by (rule 2(1))
qed

lemma cleanup_loop_stale:
  "(connID, p) \<in> set es \<Longrightarrow>
   map_option (\<lambda>c. (LastPing c, Subdomain c)) (conns tm p) = Some (lp, sd) \<Longrightarrow>
   now - lp > 2 * minute \<Longrightarrow>
   DAList.lookup (connections (cleanup_loop es now tm)) connID = None \<and>
   subdomains (cleanup_loop es now tm) sd = None \<and>
   map_option cancelled (conns (cleanup_loop es now tm) p) = Some True"
proof (induction es now tm rule: cleanup_loop.induct)
  case (1 now tm)
  then show ?case by simp
next
  case (2 k q rest now tm)
  show ?case
  proof (cases "(connID, p) = (k, q)")
    case True
    then have e: "k = connID" "q = p" by simp_all
    note st = cleanup_entry_stale [OF 2(3,4), of connID]
    show ?thesis
      unfolding cleanup_loop.simps e
      by (intro conjI cleanup_loop_gone_id cleanup_loop_gone_sub cleanup_loop_cancelled st)
  next
    case False
    with 2(2) have "(connID, p) \<in> set rest" by auto
    moreover have "map_option (\<lambda>c. (LastPing c, Subdomain c)) (conns (cleanup_entry k q now tm) p) =
        Some (lp, sd)"
      using 2(3) by (simp add: cleanup_entry_ping)
    ultimately show ?thesis
      using 2(1) [OF _ _ 2(4)] by simp
  qed
qed

lemma cleanup_loop_fresh:
  "conns tm p = Some conn \<Longrightarrow> \<not> now - LastPing conn > 2 * minute \<Longrightarrow>
   \<forall>q. (connID, q) \<in> set es \<longrightarrow> q = p \<Longrightarrow>
   conns (cleanup_loop es now tm) p = Some conn \<and>
   DAList.lookup (connections (cleanup_loop es now tm)) connID =
     DAList.lookup (connections tm) connID"
proof (induction es now tm rule: cleanup_loop.induct)
  case (1 now tm)
  then show ?case by simp
next
  case (2 k q rest now tm)
  have a: "conns (cleanup_entry k q now tm) p = Some conn"
    using cleanup_entry_fresh(1) [OF 2(2,3)] .
  have b: "k \<noteq> connID \<or> q = p"
    using 2(4) by auto
  have c: "\<forall>q. (connID, q) \<in> set rest \<longrightarrow> q = p"
    using 2(4) by auto
  show ?case
    using 2(1) [OF a 2(3) c] cleanup_entry_fresh(2) [OF 2(2,3) b] by simp
qed

lemma snapshot_entry:
  "(connID, q) \<in> set (DAList.impl_of al) \<Longrightarrow> DAList.lookup al connID = Some q"
  "DAList.lookup al connID = Some q \<Longrightarrow> (connID, q) \<in> set (DAList.impl_of al)"
proof -
  show "DAList.lookup al connID = Some q" if "(connID, q) \<in> set (DAList.impl_of al)"
    unfolding DAList.lookup.rep_eq
    using impl_of_distinct that by (rule map_of_is_SomeI)
  show "(connID, q) \<in> set (DAList.impl_of al)" if "DAList.lookup al connID = Some q"
    using that unfolding DAList.lookup.rep_eq by (rule map_of_SomeD)
qed

lemma sweep_stale:
  assumes "DAList.lookup (connections tm) connID = Some p" and "conns tm p = Some conn"
    and "now - LastPing conn > 2 * minute"
  shows "DAList.lookup (connections (cleanupRoutine_tick tm now)) connID = None \<and>
    subdomains (cleanupRoutine_tick tm now) (Subdomain conn) = None \<and>
    map_option cancelled (conns (cleanupRoutine_tick tm now) p) = Some True"
  unfolding cleanupRoutine_tick_def
  by (rule cleanup_loop_stale [OF snapshot_entry(2) [OF assms(1)] _ assms(3)])
    (simp add: assms(2))

lemma sweep_fresh:
  assumes "DAList.lookup (connections tm) connID = Some p" and "conns tm p = Some conn"
    and "\<not> now - LastPing conn > 2 * minute"
  shows "DAList.lookup (connections (cleanupRoutine_tick tm now)) connID = Some p \<and>
    conns (cleanupRoutine_tick tm now) p = Some conn"
proof -
  have "\<forall>q. (connID, q) \<in> set (DAList.impl_of (connections tm)) \<longrightarrow> q = p"
    using snapshot_entry(1) [of connID _ "connections tm"] assms(1) by auto
  from cleanup_loop_fresh [OF assms(2,3) this] assms(1)
  show ?thesis
    by (simp add: cleanupRoutine_tick_def)
qed


lemma unregisterConnection_other:
  "k \<noteq> connID \<Longrightarrow>
   DAList.lookup (connections (unregisterConnection tm connID now)) k =
     DAList.lookup (connections tm) k"
  by (simp add: unregisterConnection_def Let_def cancel_fields lookup_delete
      split: option.splits)

text \<open>
  Claim C3, as amended. Teardown, by \<open>unregisterConnection\<close> as by the sweep of the
  cleanup routine, completes no slot: it leaves every channel, every pending table and
  the trace as they were. Unregistering a registered connection removes it from both
  indices and cancels its context, and leaves every other id in the index. The sweep
  does the same to every registered connection whose last ping is more than two
  minutes old, and to no other: a registered connection that is not stale stays in the
  id index with its record unchanged. The sweep leaves the store as it was. A caller is
  released by its own deadline instead: when its channel is still empty when the wait
  ends, the call returns the timeout error and removes its own slot.
\<close>

theorem teardown_keeps_pending:
  "chans (unregisterConnection tm connID now) = chans tm \<and>
   trace (unregisterConnection tm connID now) = trace tm \<and>
   (\<forall>q. pending_of (unregisterConnection tm connID now) q = pending_of tm q) \<and>
   chans (cleanupRoutine_tick tm now) = chans tm \<and>
   trace (cleanupRoutine_tick tm now) = trace tm \<and>
   (\<forall>q. pending_of (cleanupRoutine_tick tm now) q = pending_of tm q) \<and>
   (DAList.lookup (connections tm) connID = Some p \<and> conns tm p = Some conn \<longrightarrow>
      DAList.lookup (connections (unregisterConnection tm connID now)) connID = None \<and>
      subdomains (unregisterConnection tm connID now) (Subdomain conn) = None \<and>
      map_option cancelled (conns (unregisterConnection tm connID now) p) = Some True) \<and>
   (chans tm ch = Some [] \<and> conns tm q = Some c \<longrightarrow>
      snd (ForwardRequest_wait canon tm q requestID ch) = Inl ErrRequestTimeout \<and>
      pending_of (fst (ForwardRequest_wait canon tm q requestID ch)) q =
        Some ((pendingReqs c)(requestID := None))) \<and>
   (DAList.lookup (connections tm) connID = Some p \<and> conns tm p = Some conn \<and>
    now - LastPing conn > 2 * minute \<longrightarrow>
      DAList.lookup (connections (cleanupRoutine_tick tm now)) connID = None \<and>
      subdomains (cleanupRoutine_tick tm now) (Subdomain conn) = None \<and>
      map_option cancelled (conns (cleanupRoutine_tick tm now) p) = Some True) \<and>
   (DAList.lookup (connections tm) connID = Some p \<and> conns tm p = Some conn \<and>
    \<not> now - LastPing conn > 2 * minute \<longrightarrow>
      DAList.lookup (connections (cleanupRoutine_tick tm now)) connID = Some p \<and>
      conns (cleanupRoutine_tick tm now) p = Some conn) \<and>
   store (cleanupRoutine_tick tm now) = store tm \<and>
   (k \<noteq> connID \<longrightarrow>
      DAList.lookup (connections (unregisterConnection tm connID now)) k =
        DAList.lookup (connections tm) k)"
proof (intro conjI allI impI)
  show "chans (unregisterConnection tm connID now) = chans tm"
    "trace (unregisterConnection tm connID now) = trace tm"
    "pending_of (unregisterConnection tm connID now) q = pending_of tm q" for q
    by (simp_all add: unregisterConnection_keeps)
  show "chans (cleanupRoutine_tick tm now) = chans tm"
    "trace (cleanupRoutine_tick tm now) = trace tm"
    "store (cleanupRoutine_tick tm now) = store tm"
    "pending_of (cleanupRoutine_tick tm now) q = pending_of tm q" for q
    by (simp_all add: cleanupRoutine_tick_def cleanup_loop_keeps)
next
  assume a: "DAList.lookup (connections tm) connID = Some p \<and> conns tm p = Some conn"
  then show "DAList.lookup (connections (unregisterConnection tm connID now)) connID = None"
    "subdomains (unregisterConnection tm connID now) (Subdomain conn) = None"
    "map_option cancelled (conns (unregisterConnection tm connID now) p) = Some True"
    by (simp_all add: unregisterConnection_def Let_def cancel_def)
next
  assume b: "chans tm ch = Some [] \<and> conns tm q = Some c"
  then show "snd (ForwardRequest_wait canon tm q requestID ch) = Inl ErrRequestTimeout"
    "pending_of (fst (ForwardRequest_wait canon tm q requestID ch)) q =
        Some ((pendingReqs c)(requestID := None))"
    by (simp_all add: ForwardRequest_wait_empty pending_delete_pending)
next
  assume s: "DAList.lookup (connections tm) connID = Some p \<and> conns tm p = Some conn \<and>
    now - LastPing conn > 2 * minute"
  then have "DAList.lookup (connections (cleanupRoutine_tick tm now)) connID = None \<and>
      subdomains (cleanupRoutine_tick tm now) (Subdomain conn) = None \<and>
      map_option cancelled (conns (cleanupRoutine_tick tm now) p) = Some True"
    by (intro sweep_stale) simp_all
  then show "DAList.lookup (connections (cleanupRoutine_tick tm now)) connID = None"
    "subdomains (cleanupRoutine_tick tm now) (Subdomain conn) = None"
    "map_option cancelled (conns (cleanupRoutine_tick tm now) p) = Some True"
    by blast+
next
  assume f: "DAList.lookup (connections tm) connID = Some p \<and> conns tm p = Some conn \<and>
    \<not> now - LastPing conn > 2 * minute"
  then have "DAList.lookup (connections (cleanupRoutine_tick tm now)) connID = Some p \<and>
      conns (cleanupRoutine_tick tm now) p = Some conn"
    by (intro sweep_fresh) simp_all
  then show "DAList.lookup (connections (cleanupRoutine_tick tm now)) connID = Some p"
    "conns (cleanupRoutine_tick tm now) p = Some conn"
    by blast+
next
  assume "k \<noteq> connID"
  then show "DAList.lookup (connections (unregisterConnection tm connID now)) k =
        DAList.lookup (connections tm) k"
    by (rule unregisterConnection_other)
qed

text \<open>
  With one request waiting on the session of \<open>alice\<close>, unregistering the connection or
  sweeping it as stale leaves the slot in the pending table and its channel empty; the
  caller ends with the timeout error.
\<close>

theorem teardown_keeps_pending_counterexample:
  "map_option (\<lambda>t. t ''r1'')
     (pending_of (unregisterConnection
        (fst (ForwardRequest_send alice_session ''alice-abcd1234'' ping_request ''r1''))
        ''c1'' (5 * second)) 0) = Some (Some 1) \<and>
   map_option length (chans (unregisterConnection
        (fst (ForwardRequest_send alice_session ''alice-abcd1234'' ping_request ''r1''))
        ''c1'' (5 * second)) 1) = Some 0 \<and>
   map_option (\<lambda>t. t ''r1'')
     (pending_of (cleanupRoutine_tick
        (fst (ForwardRequest_send alice_session ''alice-abcd1234'' ping_request ''r1''))
        (3 * minute)) 0) = Some (Some 1) \<and>
   map_option length (chans (cleanupRoutine_tick
        (fst (ForwardRequest_send alice_session ''alice-abcd1234'' ping_request ''r1''))
        (3 * minute)) 1) = Some 0 \<and>
   DAList.lookup (connections (cleanupRoutine_tick
        (fst (ForwardRequest_send alice_session ''alice-abcd1234'' ping_request ''r1''))
        (3 * minute))) ''c1'' = None \<and>
   snd (ForwardRequest id alice_session ''alice-abcd1234'' ping_request ''r1''
          [Unregister ''c1'' (5 * second)]) = Inl ErrRequestTimeout"
  by code_simp


lemma alice_waiting:
  "fst (ForwardRequest_send alice_session ''alice-abcd1234'' ping_request ''r1'') =
     alice_session\<lparr>chans := (chans alice_session)(1 \<mapsto> []), next_addr := 2,
       conns := (conns alice_session)
         (0 \<mapsto> alice_conn\<lparr>pendingReqs := (pendingReqs alice_conn)(''r1'' \<mapsto> 1)\<rparr>),
       trace := trace alice_session @
         [SlotInserted 0 ''r1'', FrameWritten 0 (request_frame ping_request ''r1'' ''ping'')]\<rparr> \<and>
   snd (ForwardRequest_send alice_session ''alice-abcd1234'' ping_request ''r1'') = Inr (0, 1)"
proof -
  have w: "Conn_writable alice_conn"
    by (simp add: alice_conn_def)
  have n: "next_addr alice_session = 1"
    by (simp add: alice_session_conn)
  show ?thesis
    using ForwardRequest_send_found [OF alice_session_conn [THEN conjunct2, THEN conjunct1]
        alice_session_conn [THEN conjunct1] ping_body, of "''r1''"] w
    by (simp add: n)
qed

theorem teardown_keeps_pending_witness:
  "DAList.lookup (connections (unregisterConnection
      (fst (ForwardRequest_send alice_session ''alice-abcd1234'' ping_request ''r1''))
      ''c1'' (5 * second))) ''c1'' = None \<and>
   pending_of (unregisterConnection
      (fst (ForwardRequest_send alice_session ''alice-abcd1234'' ping_request ''r1''))
      ''c1'' (5 * second)) 0 =
     pending_of (fst (ForwardRequest_send alice_session ''alice-abcd1234'' ping_request ''r1'')) 0 \<and>
   snd (ForwardRequest_wait id
      (fst (ForwardRequest_send alice_session ''alice-abcd1234'' ping_request ''r1''))
      0 ''r1'' 1) = Inl ErrRequestTimeout \<and>
   DAList.lookup (connections (cleanupRoutine_tick
      (fst (ForwardRequest_send alice_session ''alice-abcd1234'' ping_request ''r1''))
      (3 * minute))) ''c1'' = None \<and>
   map_option cancelled (conns (cleanupRoutine_tick
      (fst (ForwardRequest_send alice_session ''alice-abcd1234'' ping_request ''r1''))
      (3 * minute)) 0) = Some True \<and>
   DAList.lookup (connections (cleanupRoutine_tick
      (fst (ForwardRequest_send alice_session ''alice-abcd1234'' ping_request ''r1''))
      (5 * second))) ''c1'' = Some 0 \<and>
   DAList.lookup (connections (unregisterConnection
      (fst (ForwardRequest_send alice_session ''alice-abcd1234'' ping_request ''r1''))
      ''c2'' (5 * second))) ''c1'' = Some 0"
proof -
  let ?st = "fst (ForwardRequest_send alice_session ''alice-abcd1234'' ping_request ''r1'')"
  let ?c = "alice_conn\<lparr>pendingReqs := (pendingReqs alice_conn)(''r1'' \<mapsto> 1)\<rparr>"
  have st: "DAList.lookup (connections ?st) ''c1'' = Some 0 \<and> conns ?st 0 = Some ?c"
    "chans ?st 1 = Some [] \<and> conns ?st 0 = Some ?c"
    by (simp_all add: alice_waiting [THEN conjunct1] alice_session_conn)
  have lp: "3 * minute - LastPing ?c > 2 * minute" "\<not> 5 * second - LastPing ?c > 2 * minute"
    by (simp_all add: alice_conn_def minute_def second_def)
  have ne: "''c1'' \<noteq> ''c2''"
    by simp
  note T = teardown_keeps_pending [of ?st "''c1''" "5 * second" 0 ?c 1 0 ?c id "''r1''"]
  note S = teardown_keeps_pending [of ?st "''c1''" "3 * minute" 0 ?c]
  note U = teardown_keeps_pending [of ?st "''c2''" "5 * second" _ _ _ _ _ _ _ "''c1''"]
  have 1: "DAList.lookup (connections (unregisterConnection ?st ''c1'' (5 * second))) ''c1'' = None"
    using T st(1) by blast
  have 2: "pending_of (unregisterConnection ?st ''c1'' (5 * second)) 0 = pending_of ?st 0"
    using T by blast
  have 3: "snd (ForwardRequest_wait id ?st 0 ''r1'' 1) = Inl ErrRequestTimeout"
    using T st(2) by blast
  have 4: "DAList.lookup (connections (cleanupRoutine_tick ?st (3 * minute))) ''c1'' = None"
    "map_option cancelled (conns (cleanupRoutine_tick ?st (3 * minute)) 0) = Some True"
    using S st(1) lp(1) by blast+
  have 5: "DAList.lookup (connections (cleanupRoutine_tick ?st (5 * second))) ''c1'' = Some 0"
    using T st(1) lp(2) by blast
  have 6: "DAList.lookup (connections (unregisterConnection ?st ''c2'' (5 * second))) ''c1'' = Some 0"
    using U ne st(1) by metis
  from 1 2 3 4 5 6 show ?thesis
    by (intro conjI)
qed

subsection \<open>A request that is never answered\<close>

lemma pending_delete_other:
  "conns (pending_delete tm q r) a =
     (if a = q then map_option (\<lambda>c. c\<lparr>pendingReqs := (pendingReqs c)(r := None)\<rparr>) (conns tm q)
      else conns tm a)"
  by (simp add: pending_delete_def split: option.splits)

lemma handleResponse_frame:
  "connections (handleResponse tm q msg) = connections tm"
  "subdomains (handleResponse tm q msg) = subdomains tm"
  "store (handleResponse tm q msg) = store tm"
  "next_addr (handleResponse tm q msg) = next_addr tm"
  "map_option (\<lambda>c. (conn_ID c, Subdomain c, cancelled c)) (conns (handleResponse tm q msg) a) =
     map_option (\<lambda>c. (conn_ID c, Subdomain c, cancelled c)) (conns tm a)"
  by (simp_all add: handleResponse_def pending_delete_def
      split: option.splits list.splits)

lemma handleHeartbeat_frame:
  "conns (handleHeartbeat tm q uuid now) = conns tm"
  "chans (handleHeartbeat tm q uuid now) = chans tm"
  "connections (handleHeartbeat tm q uuid now) = connections tm"
  "subdomains (handleHeartbeat tm q uuid now) = subdomains tm"
  "store (handleHeartbeat tm q uuid now) = store tm"
  "next_addr (handleHeartbeat tm q uuid now) = next_addr tm"
  by (simp_all add: handleHeartbeat_def WriteJSON_fields)

lemma handleMessages_round_frame:
  "connections (handleMessages_round tm q now uuid msg) = connections tm"
  "subdomains (handleMessages_round tm q now uuid msg) = subdomains tm"
  "store (handleMessages_round tm q now uuid msg) = store tm"
  "next_addr (handleMessages_round tm q now uuid msg) = next_addr tm"
  by (simp_all add: handleMessages_round_def Let_def handleResponse_frame handleHeartbeat_frame
      split: option.splits TunnelMessageType.splits)

lemma handleMessages_round_keys:
  "map_option (\<lambda>c. (conn_ID c, Subdomain c, cancelled c))
     (conns (handleMessages_round tm q now uuid msg) a) =
   map_option (\<lambda>c. (conn_ID c, Subdomain c, cancelled c)) (conns tm a)"
proof (cases "conns tm q")
  case None
  then show ?thesis by (simp add: handleMessages_round_def)
next
  case (Some c)
  let ?tm = "tm\<lparr>conns := (conns tm)(q \<mapsto> c\<lparr>LastPing := now\<rparr>)\<rparr>"
  have k: "map_option (\<lambda>c. (conn_ID c, Subdomain c, cancelled c)) (conns ?tm a) =
      map_option (\<lambda>c. (conn_ID c, Subdomain c, cancelled c)) (conns tm a)"
    using Some by simp
  show ?thesis
  proof (cases "cancelled c \<or> reader_blocked c")
    case True
    with Some show ?thesis by (simp add: handleMessages_round_def)
  next
    case False
    have r: "handleMessages_round tm q now uuid msg =
        (case msg_Type msg of
           MessageTypeResponse \<Rightarrow> handleResponse ?tm q msg
         | MessageTypeHeartbeat \<Rightarrow> handleHeartbeat ?tm q uuid now
         | _ \<Rightarrow> ?tm)"
      using Some False by (simp add: handleMessages_round_def Let_def)
    show ?thesis
      unfolding r
      by (cases "msg_Type msg")
        (simp_all only: TunnelMessageType.case handleResponse_frame handleHeartbeat_frame k)
  qed
qed

lemma waiting_LastPing:
  assumes w: "waiting tm p rid ch" and cq: "conns tm q = Some c"
  shows "waiting (tm\<lparr>conns := (conns tm)(q \<mapsto> c\<lparr>LastPing := now\<rparr>)\<rparr>) p rid ch"
proof -
  from w obtain cp where cp: "conns tm p = Some cp" "pendingReqs cp rid = Some ch"
    unfolding waiting_def by blast
  from w have ce: "chans tm ch = Some []"
    unfolding waiting_def by blast
  from w have uniq: "\<And>a conn r. conns tm a = Some conn \<Longrightarrow> pendingReqs conn r = Some ch
      \<Longrightarrow> a = p \<and> r = rid"
    unfolding waiting_def by blast
  show ?thesis
    unfolding waiting_def
  proof (intro conjI allI impI)
    show "\<exists>conn. conns (tm\<lparr>conns := (conns tm)(q \<mapsto> c\<lparr>LastPing := now\<rparr>)\<rparr>) p = Some conn \<and>
        pendingReqs conn rid = Some ch"
      using cp cq by (cases "q = p") simp_all
    show "chans (tm\<lparr>conns := (conns tm)(q \<mapsto> c\<lparr>LastPing := now\<rparr>)\<rparr>) ch = Some []"
      using ce by simp
  next
    fix a conn r
    assume h: "conns (tm\<lparr>conns := (conns tm)(q \<mapsto> c\<lparr>LastPing := now\<rparr>)\<rparr>) a = Some conn \<and>
        pendingReqs conn r = Some ch"
    have "\<exists>c0. conns tm a = Some c0 \<and> pendingReqs c0 r = Some ch"
      using h cq by (cases "a = q") auto
    then show "a = p" "r = rid"
      using uniq by blast+
  qed
qed

lemma waiting_handleResponse:
  assumes w: "waiting tm p rid ch" and s: "\<not> (q = p \<and> msg_ID msg = rid)"
  shows "waiting (handleResponse tm q msg) p rid ch"
proof (cases "conns tm q")
  case None
  with w show ?thesis by (simp add: handleResponse_def)
next
  case (Some c)
  note cq = Some
  from w obtain cp where cp: "conns tm p = Some cp" "pendingReqs cp rid = Some ch"
    unfolding waiting_def by blast
  from w have ce: "chans tm ch = Some []"
    unfolding waiting_def by blast
  from w have uniq: "\<And>a conn r. conns tm a = Some conn \<Longrightarrow> pendingReqs conn r = Some ch
      \<Longrightarrow> a = p \<and> r = rid"
    unfolding waiting_def by blast
  show ?thesis
  proof (cases "pendingReqs c (msg_ID msg)")
    case None
    with cq w show ?thesis by (simp add: handleResponse_def)
  next
    case (Some ch')
    have ne: "ch' \<noteq> ch"
      using uniq [OF cq, of "msg_ID msg"] Some s by auto
    show ?thesis
    proof (cases "chans tm ch' = Some []")
      case True
      let ?c' = "c\<lparr>pendingReqs := (pendingReqs c)(msg_ID msg := None)\<rparr>"
      have hr: "conns (handleResponse tm q msg) = (conns tm)(q \<mapsto> ?c')"
        "chans (handleResponse tm q msg) = (chans tm)(ch' \<mapsto> [msg])"
        using cq Some True by (simp_all add: handleResponse_def pending_delete_def)
      show ?thesis
        unfolding waiting_def hr
      proof (intro conjI allI impI)
        show "\<exists>conn. ((conns tm)(q \<mapsto> ?c')) p = Some conn \<and> pendingReqs conn rid = Some ch"
        proof (cases "q = p")
          case True
          with cq cp have "c = cp" by simp
          moreover from True s have "msg_ID msg \<noteq> rid" by simp
          ultimately show ?thesis
            using True cp by simp
        next
          case False
          with cp show ?thesis by simp
        qed
        show "((chans tm)(ch' \<mapsto> [msg])) ch = Some []"
          using ne ce by simp
      next
        fix a conn r
        assume h: "((conns tm)(q \<mapsto> ?c')) a = Some conn \<and> pendingReqs conn r = Some ch"
        show "a = p" "r = rid"
        proof -
          have "\<exists>c0. conns tm a = Some c0 \<and> pendingReqs c0 r = Some ch"
          proof (cases "a = q")
            case True
            with h have "conn = ?c'" by simp
            with h have "pendingReqs c r = Some ch"
              by (cases "r = msg_ID msg") simp_all
            with True cq show ?thesis by simp
          next
            case False
            with h show ?thesis by simp
          qed
          then show "a = p" "r = rid"
            using uniq by blast+
        qed
      qed
    next
      case False
      then have hr: "conns (handleResponse tm q msg) = (conns tm)(q \<mapsto> c\<lparr>reader_blocked := True\<rparr>)"
        "chans (handleResponse tm q msg) = chans tm"
        using cq Some
        by (auto simp: handleResponse_def split: option.splits list.splits)
      show ?thesis
        unfolding waiting_def hr
      proof (intro conjI allI impI)
        show "\<exists>conn. ((conns tm)(q \<mapsto> c\<lparr>reader_blocked := True\<rparr>)) p = Some conn \<and>
            pendingReqs conn rid = Some ch"
          using cp cq by (cases "q = p") simp_all
        show "chans tm ch = Some []"
          by (rule ce)
      next
        fix a conn r
        assume h: "((conns tm)(q \<mapsto> c\<lparr>reader_blocked := True\<rparr>)) a = Some conn \<and>
            pendingReqs conn r = Some ch"
        have "\<exists>c0. conns tm a = Some c0 \<and> pendingReqs c0 r = Some ch"
          using h cq by (cases "a = q") auto
        then show "a = p" "r = rid"
          using uniq by blast+
      qed
    qed
  qed
qed

lemma waiting_handleHeartbeat:
  "waiting tm p rid ch \<Longrightarrow> waiting (handleHeartbeat tm q uuid now) p rid ch"
  by (simp add: waiting_def handleHeartbeat_frame)

lemma waiting_round:
  assumes w: "waiting tm p rid ch"
    and s: "\<not> (q = p \<and> msg_Type msg = MessageTypeResponse \<and> msg_ID msg = rid)"
  shows "waiting (handleMessages_round tm q now uuid msg) p rid ch"
proof (cases "conns tm q")
  case None
  with w show ?thesis by (simp add: handleMessages_round_def)
next
  case (Some c)
  show ?thesis
  proof (cases "cancelled c \<or> reader_blocked c")
    case True
    with Some w show ?thesis by (simp add: handleMessages_round_def)
  next
    case False
    let ?tm = "tm\<lparr>conns := (conns tm)(q \<mapsto> c\<lparr>LastPing := now\<rparr>)\<rparr>"
    have w1: "waiting ?tm p rid ch"
      by (rule waiting_LastPing [OF w Some])
    have r: "handleMessages_round tm q now uuid msg =
        (case msg_Type msg of
           MessageTypeResponse \<Rightarrow> handleResponse ?tm q msg
         | MessageTypeHeartbeat \<Rightarrow> handleHeartbeat ?tm q uuid now
         | _ \<Rightarrow> ?tm)"
      using Some False by (simp add: handleMessages_round_def Let_def)
    show ?thesis
    proof (cases "msg_Type msg = MessageTypeResponse")
      case True
      with s have "\<not> (q = p \<and> msg_ID msg = rid)" by simp
      from waiting_handleResponse [OF w1 this] True show ?thesis
        by (simp add: r)
    next
      case False
      then show ?thesis
        using w1 waiting_handleHeartbeat [OF w1, of q uuid now]
        by (simp add: r split: TunnelMessageType.splits)
    qed
  qed
qed


lemma pending_of_SomeD:
  "pending_of tm' q = pending_of tm q \<Longrightarrow> conns tm' q = Some c' \<Longrightarrow>
   \<exists>c. conns tm q = Some c \<and> pendingReqs c = pendingReqs c'"
  by (cases "conns tm q") (simp_all add: pending_of_def)

lemma waiting_cong:
  assumes w: "waiting tm p rid ch" and pe: "\<And>q. pending_of tm' q = pending_of tm q"
    and ce: "chans tm' = chans tm"
  shows "waiting tm' p rid ch"
proof -
  from w obtain cp where cp: "conns tm p = Some cp" "pendingReqs cp rid = Some ch"
    unfolding waiting_def by blast
  from w have e: "chans tm ch = Some []"
    unfolding waiting_def by blast
  from w have uniq: "\<And>a conn r. conns tm a = Some conn \<Longrightarrow> pendingReqs conn r = Some ch
      \<Longrightarrow> a = p \<and> r = rid"
    unfolding waiting_def by blast
  from pending_of_SomeD [OF pe [symmetric] cp(1)] obtain c' where
    c': "conns tm' p = Some c'" "pendingReqs c' = pendingReqs cp"
    by blast
  show ?thesis
    unfolding waiting_def
  proof (intro conjI allI impI)
    show "\<exists>conn. conns tm' p = Some conn \<and> pendingReqs conn rid = Some ch"
      using c' cp(2) by simp
    show "chans tm' ch = Some []"
      using e ce by simp
  next
    fix a conn r
    assume h: "conns tm' a = Some conn \<and> pendingReqs conn r = Some ch"
    from pending_of_SomeD [OF pe, of a conn] h obtain c0 where
      "conns tm a = Some c0" "pendingReqs c0 = pendingReqs conn"
      by blast
    with h uniq [of a c0 r] show "a = p" "r = rid"
      by simp_all
  qed
qed

lemma waiting_unregister:
  "waiting tm p rid ch \<Longrightarrow> waiting (unregisterConnection tm connID now) p rid ch"
  by (erule waiting_cong) (simp_all add: unregisterConnection_keeps)

lemma waiting_cleanup:
  "waiting tm p rid ch \<Longrightarrow> waiting (cleanupRoutine_tick tm now) p rid ch"
  by (erule waiting_cong) (simp_all add: cleanupRoutine_tick_def cleanup_loop_keeps)

lemma waiting_heartbeatLoop:
  "waiting tm p rid ch \<Longrightarrow> waiting (heartbeatLoop_tick tm q uuid now) p rid ch"
  by (simp add: heartbeatLoop_tick_def waiting_unregister waiting_handleHeartbeat
      split: option.splits)

lemma waiting_breaks:
  assumes "waiting tm p rid ch"
  shows "waiting (env_step tm (SocketBreaks q)) p rid ch"
proof (cases "conns tm q")
  case None
  with assms show ?thesis by simp
next
  case (Some c)
  show ?thesis
    using assms
    by (rule waiting_cong) (simp_all add: Some pending_of_def)
qed

lemma waiting_env_step:
  "no_answer p rid a \<Longrightarrow> waiting tm p rid ch \<Longrightarrow> waiting (env_step tm a) p rid ch"
proof (cases a)
  case (AgentFrame q now uuid msg)
  assume "no_answer p rid a" "waiting tm p rid ch"
  with AgentFrame show ?thesis
    by (simp add: waiting_round)
next
  case (HeartbeatTick q uuid now)
  assume "waiting tm p rid ch"
  with HeartbeatTick show ?thesis
    by (simp add: waiting_heartbeatLoop)
next
  case (CleanupTick now)
  assume "waiting tm p rid ch"
  with CleanupTick show ?thesis
    by (simp add: waiting_cleanup)
next
  case (Unregister connID now)
  assume "waiting tm p rid ch"
  with Unregister show ?thesis
    by (simp add: waiting_unregister)
next
  case (SocketBreaks q)
  assume "waiting tm p rid ch"
  with SocketBreaks show ?thesis
    by (simp only: waiting_breaks)
qed

lemma waiting_run_env:
  "list_all (no_answer p rid) env \<Longrightarrow> waiting tm p rid ch \<Longrightarrow>
   waiting (run_env tm env) p rid ch"
  unfolding run_env_def
  by (induction env arbitrary: tm) (simp_all add: waiting_env_step)

lemma silent_step_registry:
  assumes "silent_action p rid a"
  shows "connections (env_step tm a) = connections tm"
    "subdomains (env_step tm a) = subdomains tm"
    "store (env_step tm a) = store tm"
    "map_option (\<lambda>c. (conn_ID c, Subdomain c, cancelled c)) (conns (env_step tm a) q) =
       map_option (\<lambda>c. (conn_ID c, Subdomain c, cancelled c)) (conns tm q)"
  using assms
  by (cases a; simp add: handleMessages_round_frame handleMessages_round_keys)+

lemma silent_run_registry:
  "list_all (silent_action p rid) env \<Longrightarrow>
   connections (run_env tm env) = connections tm \<and>
   subdomains (run_env tm env) = subdomains tm \<and>
   store (run_env tm env) = store tm \<and>
   map_option (\<lambda>c. (conn_ID c, Subdomain c, cancelled c)) (conns (run_env tm env) q) =
     map_option (\<lambda>c. (conn_ID c, Subdomain c, cancelled c)) (conns tm q)"
  unfolding run_env_def
proof (induction env arbitrary: tm)
  case Nil
  show ?case by simp
next
  case (Cons a env)
  from Cons.prems have a: "silent_action p rid a" and r: "list_all (silent_action p rid) env"
    by simp_all
  show ?case
    using Cons.IH [OF r, of "env_step tm a"]
    by (simp add: silent_step_registry [OF a])
qed

lemma silent_no_answer: "silent_action p rid a \<Longrightarrow> no_answer p rid a"
  by (cases a) simp_all

lemma send_waiting:
  assumes "subdomains tm subdomain = Some p" "conns tm p = Some conn" "Conn_writable conn"
    "read_body req = Inr body" "heap_ok tm"
  shows "snd (ForwardRequest_send tm subdomain req requestID) = Inr (p, next_addr tm)"
    "waiting (fst (ForwardRequest_send tm subdomain req requestID)) p requestID (next_addr tm)"
proof -
  note s = ForwardRequest_send_found [OF assms(1,2,4), of requestID]
  show "snd (ForwardRequest_send tm subdomain req requestID) = Inr (p, next_addr tm)"
    using assms(3) by (simp add: s)
  have fresh: "\<And>q c r. conns tm q = Some c \<Longrightarrow> pendingReqs c r \<noteq> Some (next_addr tm)"
    using assms(5) unfolding heap_ok_def by (metis less_irrefl)
  show "waiting (fst (ForwardRequest_send tm subdomain req requestID)) p requestID (next_addr tm)"
    using assms(2,3) fresh
    by (auto simp: s waiting_def split: if_splits)
qed


lemma ForwardRequest_silent:
  assumes "subdomains tm subdomain = Some p" "conns tm p = Some conn" "Conn_writable conn"
    "read_body req = Inr body" "heap_ok tm" "list_all (no_answer p requestID) env"
  shows "ForwardRequest canon tm subdomain req requestID env =
      (pending_delete (run_env (fst (ForwardRequest_send tm subdomain req requestID)) env)
         p requestID, Inl ErrRequestTimeout)"
    "waiting (run_env (fst (ForwardRequest_send tm subdomain req requestID)) env)
       p requestID (next_addr tm)"
proof -
  note sw = send_waiting [OF assms(1-5), of requestID]
  show w: "waiting (run_env (fst (ForwardRequest_send tm subdomain req requestID)) env)
       p requestID (next_addr tm)"
    by (rule waiting_run_env [OF assms(6) sw(2)])
  then have "chans (run_env (fst (ForwardRequest_send tm subdomain req requestID)) env)
       (next_addr tm) = Some []"
    unfolding waiting_def by blast
  from ForwardRequest_wait_empty [OF this, of canon p requestID] sw(1)
  show "ForwardRequest canon tm subdomain req requestID env =
      (pending_delete (run_env (fst (ForwardRequest_send tm subdomain req requestID)) env)
         p requestID, Inl ErrRequestTimeout)"
    by (simp add: ForwardRequest_def split_beta)
qed

lemma ForwardRequest_send_registry:
  "connections (fst (ForwardRequest_send tm subdomain req requestID)) = connections tm"
  "subdomains (fst (ForwardRequest_send tm subdomain req requestID)) = subdomains tm"
  "store (fst (ForwardRequest_send tm subdomain req requestID)) = store tm"
  "map_option (\<lambda>c. (conn_ID c, Subdomain c, cancelled c))
     (conns (fst (ForwardRequest_send tm subdomain req requestID)) q) =
   map_option (\<lambda>c. (conn_ID c, Subdomain c, cancelled c)) (conns tm q)"
  by (simp_all add: ForwardRequest_send_def Let_def pending_insert_def pending_delete_def
      WriteJSON_def split: option.splits sum.splits)

lemma pending_delete_keys:
  "map_option (\<lambda>c. (conn_ID c, Subdomain c, cancelled c)) (conns (pending_delete tm p r) q) =
   map_option (\<lambda>c. (conn_ID c, Subdomain c, cancelled c)) (conns tm q)"
  by (simp add: pending_delete_def split: option.splits)

text \<open>
  Claim C5, as amended. A forwarded request whose answer never comes: the tunnel of the
  subdomain is registered, its socket takes the write, and whatever happens until the
  deadline (frames of agents, ticks of the heartbeat loop and of the cleanup routine, an
  unregistration, a breaking socket) is not the response frame with this id on this
  connection. Then \<open>ForwardRequest\<close> returns the timeout error and the slot of the id is
  gone from the pending table of the connection, and the public edge answers 502
  \<open>Tunnel unavailable\<close> with the detail \<open>tunnel request timeout\<close>. When all that
  happens meanwhile are frames read from agents, the call leaves both indices of the
  registry and the store as they were and cancels no context.
\<close>

theorem timeout_removes_slot:
  assumes "subdomains tm subdomain = Some p" and "conns tm p = Some conn"
    and "Conn_writable conn" and "read_body req = Inr body" and "heap_ok tm"
    and "list_all (no_answer p requestID) env"
  shows
    "snd (ForwardRequest canon tm subdomain req requestID env) = Inl ErrRequestTimeout \<and>
     (\<exists>c'. conns (fst (ForwardRequest canon tm subdomain req requestID env)) p = Some c' \<and>
        pendingReqs c' requestID = None) \<and>
     (extractSubdomain baseDomain (ctx_Host c) = subdomain \<and> subdomain \<noteq> [] \<and>
      fiberToHTTPRequest newRequest canon c = Some req \<longrightarrow>
        snd (ProxyHandler newRequest canon baseDomain tm c requestID env responseTime) =
          reply_error StatusBadGateway ''Tunnel unavailable'' (Some ''tunnel request timeout'')) \<and>
     (list_all (silent_action p requestID) env \<longrightarrow>
        connections (fst (ForwardRequest canon tm subdomain req requestID env)) = connections tm \<and>
        subdomains (fst (ForwardRequest canon tm subdomain req requestID env)) = subdomains tm \<and>
        store (fst (ForwardRequest canon tm subdomain req requestID env)) = store tm \<and>
        (\<forall>q. map_option cancelled
               (conns (fst (ForwardRequest canon tm subdomain req requestID env)) q) =
             map_option cancelled (conns tm q)))"
proof -
  let ?tm1 = "fst (ForwardRequest_send tm subdomain req requestID)"
  let ?tm2 = "run_env ?tm1 env"
  note fr = ForwardRequest_silent [OF assms]
  have 1: "snd (ForwardRequest canon tm subdomain req requestID env) = Inl ErrRequestTimeout"
    by (simp add: fr(1))
  from fr(2) obtain c2 where c2: "conns ?tm2 p = Some c2"
    unfolding waiting_def by blast
  have 2: "\<exists>c'. conns (fst (ForwardRequest canon tm subdomain req requestID env)) p = Some c' \<and>
        pendingReqs c' requestID = None"
    by (simp add: fr(1) pending_delete_other c2)
  have 3: "snd (ProxyHandler newRequest canon baseDomain tm c requestID env responseTime) =
          reply_error StatusBadGateway ''Tunnel unavailable'' (Some ''tunnel request timeout'')"
    if "extractSubdomain baseDomain (ctx_Host c) = subdomain \<and> subdomain \<noteq> [] \<and>
      fiberToHTTPRequest newRequest canon c = Some req"
    using that by (simp add: ProxyHandler_def Let_def fr(1))
  have 4: "connections (fst (ForwardRequest canon tm subdomain req requestID env)) = connections tm \<and>
        subdomains (fst (ForwardRequest canon tm subdomain req requestID env)) = subdomains tm \<and>
        store (fst (ForwardRequest canon tm subdomain req requestID env)) = store tm \<and>
        (\<forall>q. map_option cancelled
               (conns (fst (ForwardRequest canon tm subdomain req requestID env)) q) =
             map_option cancelled (conns tm q))"
    if s: "list_all (silent_action p requestID) env"
  proof -
    note r = silent_run_registry [OF s, of ?tm1]
    have k: "map_option cancelled (conns (pending_delete ?tm2 p requestID) q) =
        map_option cancelled (conns tm q)" for q
    proof -
      have "map_option (\<lambda>c. (conn_ID c, Subdomain c, cancelled c))
            (conns (pending_delete ?tm2 p requestID) q) =
          map_option (\<lambda>c. (conn_ID c, Subdomain c, cancelled c)) (conns tm q)"
        using r [of q] by (simp add: pending_delete_keys ForwardRequest_send_registry)
      then have "map_option (\<lambda>t. snd (snd t)) (map_option (\<lambda>c. (conn_ID c, Subdomain c, cancelled c))
            (conns (pending_delete ?tm2 p requestID) q)) =
          map_option (\<lambda>t. snd (snd t)) (map_option (\<lambda>c. (conn_ID c, Subdomain c, cancelled c))
            (conns tm q))"
        by (rule arg_cong)
      then show ?thesis
        by (simp add: option.map_comp comp_def)
    qed
    show ?thesis
      using r k by (simp add: fr(1) pending_delete_fields ForwardRequest_send_registry)
  qed
  from 1 2 3 4 show ?thesis
    by blast
qed

text \<open>
  On the session of \<open>alice\<close>, a request that gets no answer is answered 502, not 504.
\<close>

theorem timeout_status_counterexample:
  "fiber_Status (snd (ProxyHandler example_newRequest id ''syntra.dev'' alice_session ping_ctx
      ''r1'' [] 0)) = 502 \<and>
   fiber_Body (snd (ProxyHandler example_newRequest id ''syntra.dev'' alice_session ping_ctx
      ''r1'' [] 0)) = JSONError ''Tunnel unavailable'' (Some ''tunnel request timeout'')"
  by code_simp


lemma alice_heap_ok: "heap_ok alice_session"
  by (simp add: heap_ok_def alice_session_def run_ops_def HandleWebSocket_connect_def Let_def
      NewTunnelManager_def registerConnection_def WriteJSON_def generateSubdomain_def)

lemma ping_subdomain: "extractSubdomain ''syntra.dev'' (ctx_Host ping_ctx) = ''alice-abcd1234''"
  by code_simp

theorem timeout_removes_slot_witness:
  "snd (ForwardRequest id alice_session ''alice-abcd1234'' ping_request ''r1''
          [AgentFrame 0 (5 * second) ''u1'' (echo_response ''r0'' ''late'')]) =
     Inl ErrRequestTimeout \<and>
   snd (ProxyHandler example_newRequest id ''syntra.dev'' alice_session ping_ctx ''r1''
          [AgentFrame 0 (5 * second) ''u1'' (echo_response ''r0'' ''late'')] 0) =
     reply_error StatusBadGateway ''Tunnel unavailable'' (Some ''tunnel request timeout'') \<and>
   connections (fst (ForwardRequest id alice_session ''alice-abcd1234'' ping_request ''r1''
          [AgentFrame 0 (5 * second) ''u1'' (echo_response ''r0'' ''late'')])) =
     connections alice_session"
proof -
  let ?env = "[AgentFrame 0 (5 * second) ''u1'' (echo_response ''r0'' ''late'')]"
  have e: "list_all (no_answer 0 ''r1'') ?env" "list_all (silent_action 0 ''r1'') ?env"
    by (simp_all add: echo_response_def)
  have w: "Conn_writable alice_conn"
    by (simp add: alice_conn_def)
  have h: "extractSubdomain ''syntra.dev'' (ctx_Host ping_ctx) = ''alice-abcd1234'' \<and>
      ''alice-abcd1234'' \<noteq> [] \<and>
      fiberToHTTPRequest example_newRequest id ping_ctx = Some ping_request"
    by (simp add: ping_subdomain fiber_ping)
  note T = timeout_removes_slot [OF alice_session_conn [THEN conjunct2, THEN conjunct1]
      alice_session_conn [THEN conjunct1] w ping_body alice_heap_ok e(1),
      of id "''syntra.dev''" ping_ctx example_newRequest 0]
  have 1: "snd (ForwardRequest id alice_session ''alice-abcd1234'' ping_request ''r1'' ?env) =
     Inl ErrRequestTimeout"
    using T by blast
  have 2: "snd (ProxyHandler example_newRequest id ''syntra.dev'' alice_session ping_ctx ''r1''
          ?env 0) =
     reply_error StatusBadGateway ''Tunnel unavailable'' (Some ''tunnel request timeout'')"
    using T h by blast
  have 3: "connections (fst (ForwardRequest id alice_session ''alice-abcd1234'' ping_request ''r1''
          ?env)) = connections alice_session"
    using T e(2) by blast
  from 1 2 3 show ?thesis
    by (intro conjI)
qed


end
